theory Spec2Isabelle
  imports Complex_Main
begin

section \<open>Circuit breaker registry (middleware/circuit-breaker.ts)\<close>

text \<open>
  The source keeps one \<^verbatim>\<open>CircuitState\<close> object per service name in a process-wide
  \<^verbatim>\<open>Map\<close>. The fields are JavaScript numbers that only ever hold integers (a counter
  and \<^verbatim>\<open>Date.now()\<close> readings), so they are modelled as \<open>int\<close>; the counter is not a
  \<open>nat\<close>, so that staying non-negative is something to prove.
\<close>

datatype phase = CLOSED | OPEN | HALF_OPEN

record CircuitState =
  failures :: int
  lastFailureTime :: int
  state :: phase

type_synonym circuits = "string \<rightharpoonup> CircuitState"

text \<open>
  The part of \<^verbatim>\<open>config\<close> (utils/config.ts) that the middleware reads:
  \<^verbatim>\<open>config.jwt.secret\<close>, \<^verbatim>\<open>config.circuitBreaker.errorThresholdPercentage\<close> and
  \<^verbatim>\<open>config.circuitBreaker.resetTimeoutMs\<close>. The two numbers come out of
  \<^verbatim>\<open>parseInt(..., 10)\<close> and are taken as integers.
\<close>

record Config =
  jwtSecret :: string
  errorThresholdPercentage :: int
  resetTimeoutMs :: int

text \<open>The defaults of \<^verbatim>\<open>loadConfig\<close>: threshold 50, reset timeout 60000 ms.\<close>

definition defaultConfig :: Config where
  "defaultConfig =
     \<lparr> jwtSecret = ''super-secret-jwt-key'', errorThresholdPercentage = 50,
       resetTimeoutMs = 60000 \<rparr>"

subsection \<open>Requests and responses\<close>

record User =
  user_id :: string
  user_email :: string
  user_tenantId :: string
  user_roles :: "string list"
  user_tier :: "string option"
  user_permissions :: "string list"

text \<open>
  Of the Express request the middleware reads \<^verbatim>\<open>req.path\<close>,
  \<^verbatim>\<open>req.headers.authorization\<close> and \<^verbatim>\<open>req.headers['x-request-id']\<close>, and writes
  \<^verbatim>\<open>req.headers['x-request-id']\<close>, \<^verbatim>\<open>req.user\<close> and \<^verbatim>\<open>req.tenantId\<close>.
  \<open>path\<close> is \<^verbatim>\<open>req.path\<close>, the path of \<^verbatim>\<open>req.url\<close> as the running middleware sees
  it: Express takes the mount prefix off while a middleware mounted under a prefix runs;
  \<open>req_tenantId\<close> is \<^verbatim>\<open>req.tenantId\<close>, and the fields of \<^verbatim>\<open>req.user\<close> carry the prefix
  \<open>user_\<close>, the payload of a token having fields of the same names.
\<close>

record Request =
  path :: string
  authorization :: "string option"
  xRequestId :: "string option"
  user :: "User option"
  req_tenantId :: "string option"

text \<open>
  The JSON error envelope \<^verbatim>\<open>{error, message, timestamp}\<close>. The timestamp is kept as
  the clock reading in milliseconds (the source formats it with \<^verbatim>\<open>toISOString\<close>); the
  rate limiter's message object has no timestamp.
\<close>

record Envelope =
  error :: string
  message :: string
  timestamp :: "int option"

text \<open>
  Of the Express response: the status code (200 until set), the headers set so far, the
  body once one has been sent, and the wrappers that \<^verbatim>\<open>circuitBreaker\<close> has put around
  \<^verbatim>\<open>res.send\<close>. Each wrapper is a closure over one service name, so the list of those
  names, outermost wrapper first, describes the current \<^verbatim>\<open>res.send\<close>.
\<close>

record Response =
  statusCode :: int
  headers :: "string \<rightharpoonup> string"
  body :: "Envelope option"
  sendHooks :: "string list"

definition newResponse :: Response where
  "newResponse = \<lparr> statusCode = 200, headers = Map.empty, body = None, sendHooks = [] \<rparr>"

text \<open>
  A middleware either calls \<^verbatim>\<open>next()\<close>, handing the request and response on, or
  ends the request by sending a response.
\<close>

datatype Flow = Continue Request Response | Finished Response

fun admitted :: "Flow \<Rightarrow> bool" where
  "admitted (Continue _ _) = True"
| "admitted (Finished _) = False"

fun responseOf :: "Flow \<Rightarrow> Response" where
  "responseOf (Continue _ res) = res"
| "responseOf (Finished res) = res"

subsection \<open>The registry operations\<close>

text \<open>\<^verbatim>\<open>\w\<close> of a JavaScript regular expression: ASCII letters, digits, underscore.\<close>

definition isWordChar :: "char \<Rightarrow> bool" where
  "isWordChar c \<longleftrightarrow>
     c \<in> set (''abcdefghijklmnopqrstuvwxyz'' @ ''ABCDEFGHIJKLMNOPQRSTUVWXYZ'' @ ''0123456789_'')"

text \<open>
  \<^verbatim>\<open>path.match(/^\/v1\/(\w+)/)\<close>: the path must start with \<^verbatim>\<open>/v1/\<close> followed by at
  least one word character; the group is the longest run of word characters.
\<close>

fun getServiceFromPath :: "string \<Rightarrow> string option" where
  "getServiceFromPath (a # b # c # d # rest) =
     (if [a, b, c, d] = ''/v1/'' \<and> takeWhile isWordChar rest \<noteq> []
      then Some (takeWhile isWordChar rest) else None)"
| "getServiceFromPath _ = None"

definition initialCircuit :: CircuitState where
  "initialCircuit = \<lparr> failures = 0, lastFailureTime = 0, state = CLOSED \<rparr>"

text \<open>
  \<^verbatim>\<open>getOrCreateCircuit\<close> inserts the initial circuit when the name is new and returns
  the stored object. The model returns the updated map together with that circuit; the
  callers write their field updates back under the same name.
\<close>

definition getOrCreateCircuit :: "string \<Rightarrow> circuits \<Rightarrow> circuits \<times> CircuitState" where
  "getOrCreateCircuit serviceName cs =
     (case cs serviceName of
        None \<Rightarrow> (cs(serviceName \<mapsto> initialCircuit), initialCircuit)
      | Some c \<Rightarrow> (cs, c))"

text \<open>
  \<^verbatim>\<open>recordFailure\<close>: increment, stamp, then compare \<^verbatim>\<open>failures / 10\<close> with
  \<^verbatim>\<open>errorThresholdPercentage / 100\<close>. Both quotients are written as the source
  writes them, taken exactly, over the reals. The source's doubles compare the same
  way for counters and thresholds below \<open>10\<^sup>1\<^sup>3\<close>: each division is correctly
  rounded, rounding is monotone, and two different exact quotients are at least
  \<open>1/100\<close> apart.
\<close>

definition recordFailure :: "Config \<Rightarrow> int \<Rightarrow> string \<Rightarrow> circuits \<Rightarrow> circuits" where
  "recordFailure cfg now serviceName cs =
     (let (cs1, circuit) = getOrCreateCircuit serviceName cs;
          c1 = circuit\<lparr> failures := failures circuit + 1, lastFailureTime := now \<rparr>;
          failureRate = real_of_int (failures c1) / 10
      in if failureRate \<ge> real_of_int (errorThresholdPercentage cfg) / 100
         then cs1(serviceName \<mapsto> c1\<lparr> state := OPEN \<rparr>)
         else cs1(serviceName \<mapsto> c1))"

definition recordSuccess :: "string \<Rightarrow> circuits \<Rightarrow> circuits" where
  "recordSuccess serviceName cs =
     (let (cs1, circuit) = getOrCreateCircuit serviceName cs
      in if state circuit = HALF_OPEN
         then cs1(serviceName \<mapsto> circuit\<lparr> state := CLOSED, failures := 0 \<rparr>)
         else cs1(serviceName \<mapsto> circuit\<lparr> failures := max 0 (failures circuit - 1) \<rparr>))"

text \<open>
  The wrapper installed on \<^verbatim>\<open>res.send\<close>: a status of 500 or more records a failure,
  anything else a success.
\<close>

definition sendHook :: "Config \<Rightarrow> int \<Rightarrow> int \<Rightarrow> string \<Rightarrow> circuits \<Rightarrow> circuits" where
  "sendHook cfg now status serviceName cs =
     (if status \<ge> 500 then recordFailure cfg now serviceName cs
      else recordSuccess serviceName cs)"

text \<open>
  \<^verbatim>\<open>res.send(data)\<close> with the wrappers in place: each wrapper records its outcome and
  calls the one below it; the innermost call is Express's own \<^verbatim>\<open>send\<close>, which stores
  the body. \<^verbatim>\<open>res.status(c).json(b)\<close> sets the status code and, as Express's
  \<^verbatim>\<open>json\<close> ends in \<^verbatim>\<open>this.send(body)\<close>, goes through the same wrappers.
\<close>

definition res_send :: "Config \<Rightarrow> int \<Rightarrow> Envelope \<Rightarrow> Response \<Rightarrow> circuits \<Rightarrow> circuits \<times> Response" where
  "res_send cfg now data res cs =
     (foldl (\<lambda>acc s. sendHook cfg now (statusCode res) s acc) cs (sendHooks res),
      res\<lparr> body := Some data \<rparr>)"

definition res_status_json :: "Config \<Rightarrow> int \<Rightarrow> int \<Rightarrow> Envelope \<Rightarrow> Response \<Rightarrow> circuits \<Rightarrow> circuits \<times> Response" where
  "res_status_json cfg now code data res cs = res_send cfg now data (res\<lparr> statusCode := code \<rparr>) cs"

text \<open>
  \<^verbatim>\<open>circuitBreaker\<close>. \<open>now\<close> is the reading of \<^verbatim>\<open>Date.now()\<close>. On the reject branch
  the function returns before it wraps \<^verbatim>\<open>res.send\<close>; on every other branch with a
  service name it wraps \<^verbatim>\<open>res.send\<close> and calls \<^verbatim>\<open>next()\<close>.
\<close>

definition circuitBreaker :: "Config \<Rightarrow> int \<Rightarrow> Request \<Rightarrow> Response \<Rightarrow> circuits \<Rightarrow> circuits \<times> Flow" where
  "circuitBreaker cfg now req res cs =
     (case getServiceFromPath (path req) of
        None \<Rightarrow> (cs, Continue req res)
      | Some serviceName \<Rightarrow>
          (let (cs1, circuit) = getOrCreateCircuit serviceName cs
           in if state circuit = OPEN then
                (let timeSinceLastFailure = now - lastFailureTime circuit
                 in if timeSinceLastFailure < resetTimeoutMs cfg then
                      (let (cs2, res2) =
                             res_status_json cfg now 503
                               \<lparr> error = ''Service Unavailable'',
                                 message = ''Circuit breaker is OPEN'',
                                 timestamp = Some now \<rparr> res cs1
                       in (cs2, Finished res2))
                    else
                      (cs1(serviceName \<mapsto> circuit\<lparr> state := HALF_OPEN \<rparr>),
                       Continue req (res\<lparr> sendHooks := serviceName # sendHooks res \<rparr>)))
              else (cs1, Continue req (res\<lparr> sendHooks := serviceName # sendHooks res \<rparr>))))"

text \<open>The circuit an operation on \<open>serviceName\<close> works on.\<close>

definition circuitOf :: "circuits \<Rightarrow> string \<Rightarrow> CircuitState" where
  "circuitOf cs serviceName = snd (getOrCreateCircuit serviceName cs)"

subsection \<open>Histories of one registry\<close>

text \<open>
  What can happen to the registry: a request reaches \<^verbatim>\<open>circuitBreaker\<close> with some
  path at some time, or the wrapped \<^verbatim>\<open>res.send\<close> of a request that was let through
  earlier runs with some status code at some time. The second needs a request in
  flight for that service, so the registry is paired with the number of wrapped
  responses not yet sent.
\<close>

datatype event = Admit string int | Send string int int

type_synonym registry = "circuits \<times> (string \<Rightarrow> nat)"

definition requestFor :: "string \<Rightarrow> Request" where
  "requestFor p =
     \<lparr> path = p, authorization = None, xRequestId = None, user = None, req_tenantId = None \<rparr>"

fun step :: "Config \<Rightarrow> registry \<Rightarrow> event \<Rightarrow> registry" where
  "step cfg (cs, pending) (Admit p now) =
     (case circuitBreaker cfg now (requestFor p) newResponse cs of
        (cs', Continue _ res) \<Rightarrow>
          (cs', foldr (\<lambda>s pd. pd(s := Suc (pd s))) (sendHooks res) pending)
      | (cs', Finished _) \<Rightarrow> (cs', pending))"
| "step cfg (cs, pending) (Send s status now) =
     (if pending s > 0 then (sendHook cfg now status s cs, pending(s := pending s - 1))
      else (cs, pending))"

definition exec :: "Config \<Rightarrow> event list \<Rightarrow> registry" where
  "exec cfg evs = foldl (step cfg) (Map.empty, \<lambda>_. 0) evs"

definition reachable :: "Config \<Rightarrow> registry \<Rightarrow> bool" where
  "reachable cfg st \<longleftrightarrow> (\<exists>evs. st = exec cfg evs)"

fun eventTime :: "event \<Rightarrow> int" where
  "eventTime (Admit _ now) = now"
| "eventTime (Send _ _ now) = now"

text \<open>Every stored counter is non-negative.\<close>

definition nonNegative :: "circuits \<Rightarrow> bool" where
  "nonNegative cs \<longleftrightarrow> (\<forall>s c. cs s = Some c \<longrightarrow> 0 \<le> failures c)"

section \<open>Authentication middleware (middleware/auth.ts)\<close>

subsection \<open>The token library\<close>

text \<open>
  \<^verbatim>\<open>jwt.verify\<close> belongs to the \<^verbatim>\<open>jsonwebtoken\<close> package, which is not part of this
  repository. The middleware below takes it as a parameter \<open>verify\<close>: given the token
  string, the secret and the clock it reads, it returns the decoded payload or throws.
  What it throws is one of the package's error classes, or something else
  (\<open>OtherError\<close>). In the package \<^verbatim>\<open>TokenExpiredError\<close> and \<^verbatim>\<open>NotBeforeError\<close> are
  subclasses of \<^verbatim>\<open>JsonWebTokenError\<close>, which is what \<^verbatim>\<open>instanceof\<close> tests.
\<close>

record JWTPayload =
  sub :: "string option"
  email :: "string option"
  tenantId :: "string option"
  roles :: "string list option"
  tier :: "string option"
  permissions :: "string list option"
  iat :: "int option"
  expiry :: "int option"

record Token =
  wellFormed :: bool
  signedWith :: string
  payload :: JWTPayload

datatype JwtError = JsonWebTokenError | TokenExpiredError | NotBeforeError | OtherError

fun instanceofJsonWebTokenError :: "JwtError \<Rightarrow> bool" where
  "instanceofJsonWebTokenError JsonWebTokenError = True"
| "instanceofJsonWebTokenError TokenExpiredError = True"
| "instanceofJsonWebTokenError NotBeforeError = True"
| "instanceofJsonWebTokenError OtherError = False"

fun instanceofTokenExpiredError :: "JwtError \<Rightarrow> bool" where
  "instanceofTokenExpiredError TokenExpiredError = True"
| "instanceofTokenExpiredError _ = False"

text \<open>
  The package's own \<^verbatim>\<open>verify\<close>, by its documented contract, for the claim that is
  about expired tokens. What the package finds in a compact token string is a
  parameter \<open>decode\<close>: whether the string parses as a token, the secret under which its
  signature verifies, and its payload. \<^verbatim>\<open>verify\<close> rejects a malformed token, then a
  token whose signature does not verify under the given secret (both with
  \<^verbatim>\<open>JsonWebTokenError\<close>), and only then compares \<^verbatim>\<open>exp\<close>, in seconds, with
  \<^verbatim>\<open>Math.floor(Date.now() / 1000)\<close>, throwing \<^verbatim>\<open>TokenExpiredError\<close> when the clock
  has reached it.
\<close>

definition jwt_verify :: "(string \<Rightarrow> Token) \<Rightarrow> string \<Rightarrow> string \<Rightarrow> int \<Rightarrow> JwtError + JWTPayload" where
  "jwt_verify decode token secret now =
     (let t = decode token
      in if \<not> wellFormed t then Inl JsonWebTokenError
         else if signedWith t \<noteq> secret then Inl JsonWebTokenError
         else (case expiry (payload t) of
                 Some e \<Rightarrow> if now div 1000 \<ge> e then Inl TokenExpiredError else Inr (payload t)
               | None \<Rightarrow> Inr (payload t)))"

subsection \<open>jwtAuth and optionalAuth\<close>

text \<open>\<^verbatim>\<open>!x\<close> on an optional string: \<^verbatim>\<open>undefined\<close> and the empty string are falsy.\<close>

fun falsy :: "string option \<Rightarrow> bool" where
  "falsy None = True"
| "falsy (Some s) = (s = [])"

definition startsWith :: "string \<Rightarrow> string \<Rightarrow> bool" where
  "startsWith s p \<longleftrightarrow> take (length p) s = p"

definition unauthorized :: "string \<Rightarrow> int \<Rightarrow> Envelope" where
  "unauthorized msg now = \<lparr> error = ''Unauthorized'', message = msg, timestamp = Some now \<rparr>"

definition serverError :: "int \<Rightarrow> Envelope" where
  "serverError now =
     \<lparr> error = ''Internal Server Error'', message = ''Authentication service error'',
       timestamp = Some now \<rparr>"

text \<open>An exception escaping a middleware; \<^verbatim>\<open>jwtAuth\<close> is an \<^verbatim>\<open>async\<close> function, so
  this is the rejection of its promise.\<close>

datatype thrown = Thrown

text \<open>
  \<^verbatim>\<open>jwtAuth\<close>. The whole body sits in one \<^verbatim>\<open>try\<close>; the \<^verbatim>\<open>catch\<close> turns what
  \<^verbatim>\<open>jwt.verify\<close> throws into a response, testing
  \<^verbatim>\<open>instanceof jwt.JsonWebTokenError\<close> first and \<^verbatim>\<open>instanceof jwt.TokenExpiredError\<close>
  second. Every response is sent with \<^verbatim>\<open>res.status(..).json(..)\<close>. The result is
  \<open>Inr\<close> on every path: the function handles what it catches and throws nothing itself.
\<close>

definition jwtAuth ::
  "Config \<Rightarrow> (string \<Rightarrow> string \<Rightarrow> int \<Rightarrow> JwtError + JWTPayload) \<Rightarrow> int \<Rightarrow> Request \<Rightarrow> Response
     \<Rightarrow> circuits \<Rightarrow> thrown + (circuits \<times> Flow)" where
  "jwtAuth cfg verify now req res cs =
     (let respond = (\<lambda>code data. case res_status_json cfg now code data res cs of
                                     (cs', res') \<Rightarrow> Inr (cs', Finished res'))
      in if falsy (authorization req) then
           respond 401 (unauthorized ''Authorization header is required'' now)
         else
           (let authHeader = the (authorization req)
            in case (if startsWith authHeader ''Bearer '' then Some (drop 7 authHeader)
                     else if startsWith authHeader ''Service '' then Some (drop 8 authHeader)
                     else None) of
                 None \<Rightarrow> respond 401 (unauthorized ''Invalid authorization header format'' now)
               | Some token \<Rightarrow>
                   (case verify token (jwtSecret cfg) now of
                      Inr decoded \<Rightarrow>
                        if falsy (sub decoded) \<or> falsy (tenantId decoded) then
                          respond 401 (unauthorized ''Invalid token payload'' now)
                        else
                          Inr (cs, Continue
                            (req\<lparr> user := Some
                                   \<lparr> user_id = the (sub decoded),
                                     user_email = (if falsy (email decoded) then ''unknown@udsp.io''
                                                   else the (email decoded)),
                                     user_tenantId = the (tenantId decoded),
                                     user_roles = (case roles decoded of None \<Rightarrow> [] | Some r \<Rightarrow> r),
                                     user_tier = tier decoded,
                                     user_permissions =
                                       (case permissions decoded of None \<Rightarrow> [] | Some p \<Rightarrow> p) \<rparr>,
                                 req_tenantId := tenantId decoded \<rparr>) res)
                    | Inl err \<Rightarrow>
                        if instanceofJsonWebTokenError err then
                          respond 401 (unauthorized ''Invalid token'' now)
                        else if instanceofTokenExpiredError err then
                          respond 401 (unauthorized ''Token expired'' now)
                        else
                          respond 500 (serverError now))))"

text \<open>
  \<^verbatim>\<open>optionalAuth\<close>: with a truthy header it awaits \<^verbatim>\<open>jwtAuth\<close> inside a \<^verbatim>\<open>try\<close>
  and calls \<^verbatim>\<open>next()\<close> in the \<^verbatim>\<open>catch\<close>; without one it calls \<^verbatim>\<open>next()\<close>.
\<close>

definition optionalAuth ::
  "Config \<Rightarrow> (string \<Rightarrow> string \<Rightarrow> int \<Rightarrow> JwtError + JWTPayload) \<Rightarrow> int \<Rightarrow> Request \<Rightarrow> Response
     \<Rightarrow> circuits \<Rightarrow> circuits \<times> Flow" where
  "optionalAuth cfg verify now req res cs =
     (if \<not> falsy (authorization req) then
        (case jwtAuth cfg verify now req res cs of
           Inr r \<Rightarrow> r
         | Inl _ \<Rightarrow> (cs, Continue req res))
      else (cs, Continue req res))"

section \<open>Request identifiers and the middleware chain\<close>

subsection \<open>requestValidator (middleware/request-validator.ts)\<close>

text \<open>Decimal rendering of a number inside a template literal.\<close>

definition digitChar :: "nat \<Rightarrow> char" where
  "digitChar d = ''0123456789'' ! (d mod 10)"

function showNat :: "nat \<Rightarrow> string" where
  "showNat n = (if n < 10 then [digitChar n] else showNat (n div 10) @ [digitChar n])"
  by pat_completeness auto
termination
  by (relation "measure id") auto

definition showInt :: "int \<Rightarrow> string" where
  "showInt i = (if i < 0 then CHR ''-'' # showNat (nat (- i)) else showNat (nat i))"

text \<open>
  The fresh identifier \<^verbatim>\<open>`req_${Date.now()}_${Math.random().toString(36).substr(2, 9)}`\<close>.
  The random suffix is an input of the model.
\<close>

definition freshRequestId :: "int \<Rightarrow> string \<Rightarrow> string" where
  "freshRequestId now suffix = ''req_'' @ showInt now @ ''_'' @ suffix"

text \<open>
  \<^verbatim>\<open>requestValidator\<close>: \<^verbatim>\<open>req.headers['x-request-id'] || fresh\<close>, stored back on
  the request and set on the response; it always calls \<^verbatim>\<open>next()\<close>.
\<close>

definition requestValidator :: "int \<Rightarrow> string \<Rightarrow> Request \<Rightarrow> Response \<Rightarrow> Flow" where
  "requestValidator now suffix req res =
     (let requestId = (if falsy (xRequestId req) then freshRequestId now suffix
                       else the (xRequestId req))
      in Continue (req\<lparr> xRequestId := Some requestId \<rparr>)
                  (res\<lparr> headers := (headers res)(''X-Request-ID'' \<mapsto> requestId) \<rparr>))"

text \<open>The identifier \<^verbatim>\<open>requestValidator\<close> settles on for a request.\<close>

definition assignedId :: "int \<Rightarrow> string \<Rightarrow> Request \<Rightarrow> string" where
  "assignedId now suffix req =
     (if falsy (xRequestId req) then freshRequestId now suffix else the (xRequestId req))"

subsection \<open>The chain of a proxied route (the gateway's main module)\<close>

text \<open>
  \<^verbatim>\<open>onProxyReq\<close> of \<^verbatim>\<open>setupServiceProxy\<close>: the headers it sets on the outgoing
  request.
\<close>

definition onProxyReq :: "int \<Rightarrow> string \<Rightarrow> Request \<Rightarrow> (string \<rightharpoonup> string)" where
  "onProxyReq now suffix req =
     (let requestId = (if falsy (xRequestId req) then freshRequestId now suffix
                       else the (xRequestId req));
          h = [''X-Request-ID'' \<mapsto> requestId]
      in case user req of
           None \<Rightarrow> h
         | Some u \<Rightarrow> h(''X-User-ID'' \<mapsto> user_id u, ''X-Tenant-ID'' \<mapsto> user_tenantId u))"

text \<open>
  The global rate limiter comes from the \<^verbatim>\<open>express-rate-limit\<close> package with a shared
  counter store; its decision for the request is an input \<open>limited\<close> of the model. When
  it rejects it answers 429 with the configured message object and the chain stops.
\<close>

definition rateLimiter :: "bool \<Rightarrow> Request \<Rightarrow> Response \<Rightarrow> Flow" where
  "rateLimiter limited req res =
     (if limited then
        Finished (res\<lparr> statusCode := 429,
                        body := Some \<lparr> error = ''Too many requests'',
                                        message = ''Rate limit exceeded'',
                                        timestamp = None \<rparr> \<rparr>)
      else Continue req res)"

datatype authMode = Optional | Mandatory

fun authMiddleware ::
  "authMode \<Rightarrow> Config \<Rightarrow> (string \<Rightarrow> string \<Rightarrow> int \<Rightarrow> JwtError + JWTPayload) \<Rightarrow> int \<Rightarrow> Request
     \<Rightarrow> Response \<Rightarrow> circuits \<Rightarrow> thrown + (circuits \<times> Flow)" where
  "authMiddleware Mandatory cfg verify now req res cs = jwtAuth cfg verify now req res cs"
| "authMiddleware Optional cfg verify now req res cs = Inr (optionalAuth cfg verify now req res cs)"

text \<open>
  What happens to a request before it is forwarded: either a response is sent, or the
  proxy forwards it with the headers of \<^verbatim>\<open>onProxyReq\<close>.
\<close>

datatype Outcome = Rejected Response | Forwarded Request Response "string \<rightharpoonup> string"


fun outcomeResponse :: "Outcome \<Rightarrow> Response" where
  "outcomeResponse (Rejected res) = res"
| "outcomeResponse (Forwarded _ res _) = res"

fun forwardedHeaders :: "Outcome \<Rightarrow> (string \<rightharpoonup> string) option" where
  "forwardedHeaders (Rejected _) = None"
| "forwardedHeaders (Forwarded _ _ h) = Some h"

subsection \<open>Mounting under a path prefix\<close>

text \<open>
  \<^verbatim>\<open>app.use(mount, middleware)\<close> belongs to Express, which is not part of this
  repository; it is modelled by the behaviour of Express 4. The mount \<^verbatim>\<open>/v1\<close> is
  matched against the path with the regular expression \<^verbatim>\<open>/^\/v1\/?(?=\/|$)/i\<close>:
  without regard to case, the path starts with the mount, and what follows is nothing,
  or a slash; the match takes one slash along when the path ends with it or another
  slash follows. \<open>matchedPrefix\<close> is the length of the match.
\<close>

definition toLower :: "char \<Rightarrow> char" where
  "toLower c =
     (case map_of (zip ''ABCDEFGHIJKLMNOPQRSTUVWXYZ'' ''abcdefghijklmnopqrstuvwxyz'') c of
        None \<Rightarrow> c
      | Some l \<Rightarrow> l)"

definition matchedPrefix :: "string \<Rightarrow> string \<Rightarrow> nat option" where
  "matchedPrefix mount p =
     (let n = length mount
      in if map toLower (take n p) \<noteq> map toLower mount then None
         else (case drop n p of
                 [] \<Rightarrow> Some n
               | c # r \<Rightarrow>
                   if c \<noteq> CHR ''/'' then None
                   else (case r of
                           [] \<Rightarrow> Some (n + 1)
                         | d # _ \<Rightarrow> if d = CHR ''/'' then Some (n + 1) else Some n)))"

text \<open>
  While the mounted middleware runs, \<^verbatim>\<open>req.url\<close> is the rest of the path, with a
  leading slash put in front when it has none.
\<close>

definition trimPrefix :: "nat \<Rightarrow> string \<Rightarrow> string" where
  "trimPrefix k p =
     (case drop k p of
        [] \<Rightarrow> ''/''
      | c # r \<Rightarrow> if c = CHR ''/'' then c # r else CHR ''/'' # c # r)"

text \<open>
  \<^verbatim>\<open>app.use(mount, middleware)\<close> for a middleware that works on the registry: a
  request whose path the mount does not match passes it by; otherwise the middleware
  runs on the trimmed path, and the path is put back when it calls \<^verbatim>\<open>next()\<close>.
\<close>

definition app_use ::
  "string \<Rightarrow> (Request \<Rightarrow> Response \<Rightarrow> circuits \<Rightarrow> circuits \<times> Flow)
     \<Rightarrow> Request \<Rightarrow> Response \<Rightarrow> circuits \<Rightarrow> circuits \<times> Flow" where
  "app_use mount middleware req res cs =
     (case matchedPrefix mount (path req) of
        None \<Rightarrow> (cs, Continue req res)
      | Some k \<Rightarrow>
          (case middleware (req\<lparr> path := trimPrefix k (path req) \<rparr>) res cs of
             (cs', Continue req' res') \<Rightarrow> (cs', Continue (req'\<lparr> path := path req \<rparr>) res')
           | (cs', Finished res') \<Rightarrow> (cs', Finished res')))"


text \<open>
  The middleware that sees a request whose URL selects one of the
  \<^verbatim>\<open>setupServiceProxy\<close> mounts, in the order \<^verbatim>\<open>initializeMiddleware\<close> and
  \<^verbatim>\<open>initializeRoutes\<close> register it: the rate limiter, \<^verbatim>\<open>requestValidator\<close>,
  \<^verbatim>\<open>circuitBreaker\<close> mounted under \<^verbatim>\<open>/v1\<close>, the route's auth middleware, the proxy.
  (The middleware registered before the rate limiter touches neither the registry nor
  the request identifier.) \<open>path req\<close> is the path of the request's URL and \<open>mode\<close> the
  auth middleware of the route; a request selects the route \<open>(m, mode)\<close> of
  \<open>serviceRoutes\<close> when \<open>matchedPrefix m (path req)\<close> is not \<open>None\<close>. An exception out
  of the auth middleware goes to Express's error handling, which is not part of the
  model: the chain then yields \<open>None\<close>. The clock readings taken while one request runs
  down the chain are one instant \<open>now\<close>; \<open>suffix\<close> and \<open>suffix'\<close> are the random
  suffixes drawn by \<^verbatim>\<open>requestValidator\<close> and \<^verbatim>\<open>onProxyReq\<close>.
\<close>

definition servicePipeline ::
  "Config \<Rightarrow> (string \<Rightarrow> string \<Rightarrow> int \<Rightarrow> JwtError + JWTPayload) \<Rightarrow> int \<Rightarrow> string \<Rightarrow> string
     \<Rightarrow> bool \<Rightarrow> authMode \<Rightarrow> Request \<Rightarrow> circuits \<Rightarrow> (circuits \<times> Outcome) option" where
  "servicePipeline cfg verify now suffix suffix' limited mode req cs =
     (case rateLimiter limited req newResponse of
        Finished res \<Rightarrow> Some (cs, Rejected res)
      | Continue req0 res0 \<Rightarrow>
          (case requestValidator now suffix req0 res0 of
             Finished res \<Rightarrow> Some (cs, Rejected res)
           | Continue req1 res1 \<Rightarrow>
               (case app_use ''/v1'' (circuitBreaker cfg now) req1 res1 cs of
                  (cs1, Finished res) \<Rightarrow> Some (cs1, Rejected res)
                | (cs1, Continue req2 res2) \<Rightarrow>
                    (case authMiddleware mode cfg verify now req2 res2 cs1 of
                       Inl _ \<Rightarrow> None
                     | Inr (cs2, Finished res) \<Rightarrow> Some (cs2, Rejected res)
                     | Inr (cs2, Continue req3 res3) \<Rightarrow>
                         Some (cs2, Forwarded req3 res3 (onProxyReq now suffix' req3))))))"

declare showNat.simps [simp del]

section \<open>Concrete inputs\<close>

text \<open>A registry holding one circuit, for the service \<^verbatim>\<open>identities\<close>.\<close>

definition circuitWith :: "int \<Rightarrow> int \<Rightarrow> phase \<Rightarrow> circuits" where
  "circuitWith f t ph = [''identities'' \<mapsto> \<lparr> failures = f, lastFailureTime = t, state = ph \<rparr>]"

definition identitiesRequest :: Request where
  "identitiesRequest = requestFor ''/v1/identities''"

text \<open>
  A history under the default configuration, with non-decreasing clock readings: seven
  requests are let through while the circuit is closed; five of them end with status
  500, which opens the circuit at time 1; the other two end with status 200 while it
  is open; after the reset timeout one more request arrives.
\<close>

definition probeTrace :: "event list" where
  "probeTrace =
     [Admit ''/v1/identities'' 0, Admit ''/v1/identities'' 0, Admit ''/v1/identities'' 0,
      Admit ''/v1/identities'' 0, Admit ''/v1/identities'' 0, Admit ''/v1/identities'' 0,
      Admit ''/v1/identities'' 0,
      Send ''identities'' 500 1, Send ''identities'' 500 1, Send ''identities'' 500 1,
      Send ''identities'' 500 1, Send ''identities'' 500 1,
      Send ''identities'' 200 2, Send ''identities'' 200 2,
      Admit ''/v1/identities'' 60001]"

text \<open>
  Token strings as the library sees them: every string is a well-formed token with
  subject \<^verbatim>\<open>u1\<close>, tenant \<^verbatim>\<open>t1\<close> and \<^verbatim>\<open>exp = 2000\<close>, signed under the given secret.
\<close>

definition tokensSignedWith :: "string \<Rightarrow> string \<Rightarrow> Token" where
  "tokensSignedWith key = (\<lambda>_.
     \<lparr> wellFormed = True, signedWith = key,
       payload = \<lparr> sub = Some ''u1'', email = None, tenantId = Some ''t1'', roles = None,
                   tier = None, permissions = None, iat = Some 1000, expiry = Some 2000 \<rparr> \<rparr>)"

definition bearerRequest :: Request where
  "bearerRequest = (requestFor ''/v1/identities'')\<lparr> authorization := Some ''Bearer abc'' \<rparr>"

definition basicRequest :: Request where
  "basicRequest = (requestFor ''/v1/auth'')\<lparr> authorization := Some ''Basic abc'' \<rparr>"

definition tracedRequest :: Request where
  "tracedRequest = (requestFor ''/v1/identities'')\<lparr> xRequestId := Some ''trace-1'' \<rparr>"


text \<open>The rate limiter's answer on a fresh response.\<close>

definition rateLimitedResponse :: Response where
  "rateLimitedResponse =
     \<lparr> statusCode = 429, headers = Map.empty,
       body = Some \<lparr> error = ''Too many requests'', message = ''Rate limit exceeded'',
                     timestamp = None \<rparr>,
       sendHooks = [] \<rparr>"

section \<open>Facts about the registry operations\<close>

lemma circuitOf_simps:
  "circuitOf cs s = (case cs s of None \<Rightarrow> initialCircuit | Some c \<Rightarrow> c)"
  by (simp add: circuitOf_def getOrCreateCircuit_def split: option.splits)

lemma recordSuccess_apply:
  "recordSuccess s cs t =
     (if t = s then
        Some (if state (circuitOf cs s) = HALF_OPEN
              then (circuitOf cs s)\<lparr> state := CLOSED, failures := 0 \<rparr>
              else (circuitOf cs s)\<lparr> failures := max 0 (failures (circuitOf cs s) - 1) \<rparr>)
      else cs t)"
  by (simp add: recordSuccess_def circuitOf_simps getOrCreateCircuit_def split: option.splits)

lemma failureRate_int:
  "(real_of_int f / 10 \<ge> real_of_int t / 100) \<longleftrightarrow> t \<le> 10 * f"
proof -
  have "(real_of_int f / 10 \<ge> real_of_int t / 100) \<longleftrightarrow> real_of_int t \<le> real_of_int (10 * f)"
    by (simp add: field_simps)
  then show ?thesis by (simp only: of_int_le_iff)
qed

lemma recordFailure_apply:
  "recordFailure cfg now s cs t =
     (if t = s then
        Some (if errorThresholdPercentage cfg \<le> 10 * (failures (circuitOf cs s) + 1)
              then (circuitOf cs s)\<lparr> failures := failures (circuitOf cs s) + 1,
                     lastFailureTime := now, state := OPEN \<rparr>
              else (circuitOf cs s)\<lparr> failures := failures (circuitOf cs s) + 1,
                     lastFailureTime := now \<rparr>)
      else cs t)"
  by (simp add: recordFailure_def circuitOf_simps getOrCreateCircuit_def failureRate_int Let_def
           split: option.splits)

lemma circuitOf_recordSuccess:
  "circuitOf (recordSuccess s cs) t =
     (if t = s then
        (if state (circuitOf cs s) = HALF_OPEN
              then (circuitOf cs s)\<lparr> state := CLOSED, failures := 0 \<rparr>
              else (circuitOf cs s)\<lparr> failures := max 0 (failures (circuitOf cs s) - 1) \<rparr>)
      else circuitOf cs t)"
  by (simp add: circuitOf_simps recordSuccess_apply)

lemma circuitOf_recordFailure:
  "circuitOf (recordFailure cfg now s cs) t =
     (if t = s then
        (if errorThresholdPercentage cfg \<le> 10 * (failures (circuitOf cs s) + 1)
              then (circuitOf cs s)\<lparr> failures := failures (circuitOf cs s) + 1,
                     lastFailureTime := now, state := OPEN \<rparr>
              else (circuitOf cs s)\<lparr> failures := failures (circuitOf cs s) + 1,
                     lastFailureTime := now \<rparr>)
      else circuitOf cs t)"
  by (simp add: circuitOf_simps recordFailure_apply)

lemma nonNegative_circuitOf:
  "nonNegative cs \<Longrightarrow> 0 \<le> failures (circuitOf cs s)"
  by (auto simp: nonNegative_def circuitOf_simps initialCircuit_def split: option.splits)

lemma nonNegative_getOrCreateCircuit:
  "nonNegative cs \<Longrightarrow> nonNegative (fst (getOrCreateCircuit s cs))"
  by (auto simp: nonNegative_def getOrCreateCircuit_def initialCircuit_def split: option.splits)

lemma nonNegative_recordSuccess:
  "nonNegative cs \<Longrightarrow> nonNegative (recordSuccess s cs)"
  unfolding nonNegative_def recordSuccess_apply by auto

lemma nonNegative_recordFailure:
  assumes "nonNegative cs"
  shows "nonNegative (recordFailure cfg now s cs)"
proof -
  have "0 \<le> failures (circuitOf cs s)"
    using assms by (rule nonNegative_circuitOf)
  then show ?thesis
    using assms unfolding nonNegative_def recordFailure_apply by auto
qed

lemma nonNegative_sendHook:
  "nonNegative cs \<Longrightarrow> nonNegative (sendHook cfg now status s cs)"
  by (simp add: sendHook_def nonNegative_recordSuccess nonNegative_recordFailure)

lemma nonNegative_hooks:
  "nonNegative cs \<Longrightarrow> nonNegative (foldl (\<lambda>acc s. sendHook cfg now status s acc) cs hs)"
  by (induction hs arbitrary: cs) (simp_all add: nonNegative_sendHook)

lemma nonNegative_upd:
  "nonNegative cs \<Longrightarrow> 0 \<le> failures c \<Longrightarrow> nonNegative (cs(s \<mapsto> c))"
  by (simp add: nonNegative_def)

lemma nonNegative_circuitBreaker:
  assumes "nonNegative cs"
  shows "nonNegative (fst (circuitBreaker cfg now req res cs))"
proof (cases "getServiceFromPath (path req)")
  case None
  then show ?thesis using assms by (simp add: circuitBreaker_def)
next
  case (Some s)
  obtain cs1 c where g: "getOrCreateCircuit s cs = (cs1, c)"
    by (cases "getOrCreateCircuit s cs")
  have n1: "nonNegative cs1"
    using nonNegative_getOrCreateCircuit [OF assms, of s] g by simp
  have c: "0 \<le> failures c"
    using nonNegative_circuitOf [OF assms, of s] g by (simp add: circuitOf_def)
  show ?thesis
    using Some g n1 c
    by (simp add: circuitBreaker_def Let_def res_status_json_def res_send_def
          nonNegative_hooks nonNegative_upd)
qed

lemma recordSuccess_iter_nonneg:
  "0 \<le> failures (circuitOf cs s) \<Longrightarrow> 0 \<le> failures (circuitOf ((recordSuccess s ^^ n) cs) s)"
  by (induction n) (simp_all add: circuitOf_recordSuccess)

lemma circuitOf_sendHook_OPEN:
  "state (circuitOf cs s) = OPEN \<Longrightarrow> state (circuitOf (sendHook cfg now status t cs) s) = OPEN"
  by (cases "t = s") (auto simp: sendHook_def circuitOf_recordSuccess circuitOf_recordFailure)

lemma circuitOf_hooks_OPEN:
  "state (circuitOf cs s) = OPEN \<Longrightarrow>
   state (circuitOf (foldl (\<lambda>acc t. sendHook cfg now status t acc) cs hs) s) = OPEN"
  by (induction hs arbitrary: cs) (simp_all add: circuitOf_sendHook_OPEN)

lemma getOrCreateCircuit_eq:
  "getOrCreateCircuit s cs = (cs(s \<mapsto> circuitOf cs s), circuitOf cs s)"
  by (auto simp: getOrCreateCircuit_def circuitOf_def split: option.splits)

lemma circuitOf_upd:
  "circuitOf (cs(s \<mapsto> c)) t = (if t = s then c else circuitOf cs t)"
  by (simp add: circuitOf_simps)

lemma circuitBreaker_None:
  "getServiceFromPath (path req) = None \<Longrightarrow> circuitBreaker cfg now req res cs = (cs, Continue req res)"
  by (simp add: circuitBreaker_def)

lemma circuitBreaker_Some:
  assumes "getServiceFromPath (path req) = Some s"
  shows "circuitBreaker cfg now req res cs =
     (if state (circuitOf cs s) = OPEN then
        (if now - lastFailureTime (circuitOf cs s) < resetTimeoutMs cfg then
           (foldl (\<lambda>acc t. sendHook cfg now 503 t acc) (cs(s \<mapsto> circuitOf cs s)) (sendHooks res),
            Finished (res\<lparr> statusCode := 503,
               body := Some \<lparr> error = ''Service Unavailable'',
                               message = ''Circuit breaker is OPEN'',
                               timestamp = Some now \<rparr> \<rparr>))
         else
           (cs(s \<mapsto> (circuitOf cs s)\<lparr> state := HALF_OPEN \<rparr>),
            Continue req (res\<lparr> sendHooks := s # sendHooks res \<rparr>)))
      else (cs(s \<mapsto> circuitOf cs s), Continue req (res\<lparr> sendHooks := s # sendHooks res \<rparr>)))"
  using assms
  by (simp add: circuitBreaker_def getOrCreateCircuit_eq Let_def res_status_json_def res_send_def)

lemma stored_circuit:
  "cs s \<noteq> None \<Longrightarrow> cs(s \<mapsto> circuitOf cs s) = cs"
  by (auto simp: circuitOf_simps)

lemma not_CLOSED_stored:
  "state (circuitOf cs s) \<noteq> CLOSED \<Longrightarrow> cs s \<noteq> None"
  by (cases "cs s") (simp_all add: circuitOf_simps initialCircuit_def)

lemma circuitOf_stored [simp]:
  "circuitOf (cs(s \<mapsto> circuitOf cs s)) t = circuitOf cs t"
  by (simp add: circuitOf_simps)

lemma circuitBreaker_OPEN_state:
  assumes "state (circuitOf cs s) = OPEN"
  shows "state (circuitOf (fst (circuitBreaker cfg now req res cs)) s) =
     (if getServiceFromPath (path req) = Some s
         \<and> resetTimeoutMs cfg \<le> now - lastFailureTime (circuitOf cs s)
      then HALF_OPEN else OPEN)"
proof (cases "getServiceFromPath (path req)")
  case None
  then show ?thesis using assms by (simp add: circuitBreaker_None)
next
  case (Some t)
  have stored: "state (circuitOf (cs(t \<mapsto> circuitOf cs t)) s) = OPEN"
    using assms by simp
  show ?thesis
  proof (cases "t = s")
    case True
    then show ?thesis
      using Some assms stored
      by (simp add: circuitBreaker_Some [OF Some] circuitOf_hooks_OPEN circuitOf_upd)
  next
    case False
    then show ?thesis
      using Some assms stored
      by (simp add: circuitBreaker_Some [OF Some] circuitOf_hooks_OPEN circuitOf_upd)
  qed
qed

lemma step_OPEN_exit:
  assumes "state (circuitOf cs s) = OPEN"
    and "state (circuitOf (fst (step cfg (cs, pd) ev)) s) \<noteq> OPEN"
  shows "(\<exists>p now. ev = Admit p now \<and> getServiceFromPath p = Some s
            \<and> resetTimeoutMs cfg \<le> now - lastFailureTime (circuitOf cs s))
         \<and> state (circuitOf (fst (step cfg (cs, pd) ev)) s) = HALF_OPEN"
proof (cases ev)
  case (Admit p now)
  have f: "fst (step cfg (cs, pd) (Admit p now))
             = fst (circuitBreaker cfg now (requestFor p) newResponse cs)"
    by (simp split: prod.splits Flow.splits)
  have "path (requestFor p) = p" by (simp add: requestFor_def)
  then show ?thesis
    using assms Admit circuitBreaker_OPEN_state [OF assms(1), of cfg now "requestFor p" newResponse]
    by (simp only: f) (auto split: if_splits)
next
  case (Send t status now)
  then show ?thesis
    using assms by (auto simp: circuitOf_sendHook_OPEN split: if_splits)
qed

section \<open>Facts about the auth middleware\<close>

lemma res_status_json_eq:
  "res_status_json cfg now code data res cs =
     (foldl (\<lambda>acc t. sendHook cfg now code t acc) cs (sendHooks res),
      res\<lparr> statusCode := code, body := Some data \<rparr>)"
  by (simp add: res_status_json_def res_send_def)

lemma jwt_verify_error:
  "jwt_verify decode token secret now = Inl e \<Longrightarrow> instanceofJsonWebTokenError e"
  by (auto simp: jwt_verify_def Let_def split: if_splits option.splits)

text \<open>
  The three shapes of the result of \<^verbatim>\<open>jwtAuth\<close>: it calls \<^verbatim>\<open>next()\<close> with an identity
  attached, or answers 401, or (when \<open>verify\<close> throws something that is not a
  \<^verbatim>\<open>JsonWebTokenError\<close>) answers 500.
\<close>

lemma jwtAuth_no_header:
  "falsy (authorization req) \<Longrightarrow>
   jwtAuth cfg verify now req res cs =
     Inr (foldl (\<lambda>acc t. sendHook cfg now 401 t acc) cs (sendHooks res),
          Finished (res\<lparr> statusCode := 401,
             body := Some (unauthorized ''Authorization header is required'' now) \<rparr>))"
  by (simp add: jwtAuth_def Let_def res_status_json_eq)

lemma jwtAuth_shape:
  "(\<exists>req'. jwtAuth cfg verify now req res cs = Inr (cs, Continue req' res)
        \<and> xRequestId req' = xRequestId req \<and> path req' = path req \<and> user req' \<noteq> None
        \<and> \<not> falsy (authorization req))
   \<or> (\<exists>msg. jwtAuth cfg verify now req res cs =
          Inr (foldl (\<lambda>acc t. sendHook cfg now 401 t acc) cs (sendHooks res),
               Finished (res\<lparr> statusCode := 401, body := Some (unauthorized msg now) \<rparr>)))
   \<or> ((\<exists>token e. verify token (jwtSecret cfg) now = Inl e \<and> \<not> instanceofJsonWebTokenError e)
       \<and> jwtAuth cfg verify now req res cs =
          Inr (foldl (\<lambda>acc t. sendHook cfg now 500 t acc) cs (sendHooks res),
               Finished (res\<lparr> statusCode := 500, body := Some (serverError now) \<rparr>)))"
proof (cases "falsy (authorization req)")
  case True
  then show ?thesis
    using jwtAuth_no_header [of req cfg verify now res cs] by blast
next
  case header: False
  define extracted where
    "extracted = (if startsWith (the (authorization req)) ''Bearer ''
                  then Some (drop 7 (the (authorization req)))
                  else if startsWith (the (authorization req)) ''Service ''
                  then Some (drop 8 (the (authorization req)))
                  else None)"
  show ?thesis
  proof (cases extracted)
    case None
    then have "jwtAuth cfg verify now req res cs =
          Inr (foldl (\<lambda>acc t. sendHook cfg now 401 t acc) cs (sendHooks res),
               Finished (res\<lparr> statusCode := 401,
                  body := Some (unauthorized ''Invalid authorization header format'' now) \<rparr>))"
      using header
      by (simp add: jwtAuth_def Let_def res_status_json_eq extracted_def split: if_splits)
    then show ?thesis by blast
  next
    case (Some token)
    have unfold: "jwtAuth cfg verify now req res cs =
       (case verify token (jwtSecret cfg) now of
          Inr decoded \<Rightarrow>
            if falsy (sub decoded) \<or> falsy (tenantId decoded) then
              Inr (foldl (\<lambda>acc t. sendHook cfg now 401 t acc) cs (sendHooks res),
                   Finished (res\<lparr> statusCode := 401,
                      body := Some (unauthorized ''Invalid token payload'' now) \<rparr>))
            else
              Inr (cs, Continue
                (req\<lparr> user := Some
                       \<lparr> user_id = the (sub decoded),
                         user_email = (if falsy (email decoded) then ''unknown@udsp.io''
                                       else the (email decoded)),
                         user_tenantId = the (tenantId decoded),
                         user_roles = (case roles decoded of None \<Rightarrow> [] | Some r \<Rightarrow> r),
                         user_tier = tier decoded,
                         user_permissions =
                           (case permissions decoded of None \<Rightarrow> [] | Some p \<Rightarrow> p) \<rparr>,
                     req_tenantId := tenantId decoded \<rparr>) res)
        | Inl err \<Rightarrow>
            if instanceofJsonWebTokenError err then
              Inr (foldl (\<lambda>acc t. sendHook cfg now 401 t acc) cs (sendHooks res),
                   Finished (res\<lparr> statusCode := 401,
                      body := Some (unauthorized ''Invalid token'' now) \<rparr>))
            else if instanceofTokenExpiredError err then
              Inr (foldl (\<lambda>acc t. sendHook cfg now 401 t acc) cs (sendHooks res),
                   Finished (res\<lparr> statusCode := 401,
                      body := Some (unauthorized ''Token expired'' now) \<rparr>))
            else
              Inr (foldl (\<lambda>acc t. sendHook cfg now 500 t acc) cs (sendHooks res),
                   Finished (res\<lparr> statusCode := 500, body := Some (serverError now) \<rparr>)))"
      using header Some
      by (simp add: jwtAuth_def Let_def res_status_json_eq extracted_def split: if_splits)
    show ?thesis
    proof (cases "verify token (jwtSecret cfg) now")
      case (Inr decoded)
      show ?thesis
      proof (cases "falsy (sub decoded) \<or> falsy (tenantId decoded)")
        case True
        then have "jwtAuth cfg verify now req res cs =
              Inr (foldl (\<lambda>acc t. sendHook cfg now 401 t acc) cs (sendHooks res),
                   Finished (res\<lparr> statusCode := 401,
                      body := Some (unauthorized ''Invalid token payload'' now) \<rparr>))"
          using Inr by (simp add: unfold)
        then show ?thesis by blast
      next
        case False
        then show ?thesis
          using Inr header by (simp add: unfold)
      qed
    next
      case (Inl err)
      show ?thesis
      proof (cases "instanceofJsonWebTokenError err")
        case True
        then have "jwtAuth cfg verify now req res cs =
              Inr (foldl (\<lambda>acc t. sendHook cfg now 401 t acc) cs (sendHooks res),
                   Finished (res\<lparr> statusCode := 401,
                      body := Some (unauthorized ''Invalid token'' now) \<rparr>))"
          using Inl by (simp add: unfold)
        then show ?thesis by blast
      next
        case False
        then have "\<not> instanceofTokenExpiredError err" by (cases err) simp_all
        then have "jwtAuth cfg verify now req res cs =
              Inr (foldl (\<lambda>acc t. sendHook cfg now 500 t acc) cs (sendHooks res),
                   Finished (res\<lparr> statusCode := 500, body := Some (serverError now) \<rparr>))"
          using Inl False by (simp add: unfold)
        then show ?thesis using Inl False by blast
      qed
    qed
  qed
qed

lemma authMiddleware_shape:
  "(\<exists>req'. authMiddleware mode cfg verify now req res cs = Inr (cs, Continue req' res)
        \<and> xRequestId req' = xRequestId req \<and> path req' = path req)
   \<or> (\<exists>msg. authMiddleware mode cfg verify now req res cs =
          Inr (foldl (\<lambda>acc t. sendHook cfg now 401 t acc) cs (sendHooks res),
               Finished (res\<lparr> statusCode := 401, body := Some (unauthorized msg now) \<rparr>)))
   \<or> ((\<exists>token e. verify token (jwtSecret cfg) now = Inl e \<and> \<not> instanceofJsonWebTokenError e)
       \<and> authMiddleware mode cfg verify now req res cs =
          Inr (foldl (\<lambda>acc t. sendHook cfg now 500 t acc) cs (sendHooks res),
               Finished (res\<lparr> statusCode := 500, body := Some (serverError now) \<rparr>)))"
proof (cases mode)
  case Mandatory
  then show ?thesis
    using jwtAuth_shape [of cfg verify now req res cs] by simp blast
next
  case Optional
  show ?thesis
  proof (cases "falsy (authorization req)")
    case True
    then show ?thesis using Optional by (simp add: optionalAuth_def)
  next
    case False
    then show ?thesis
      using Optional jwtAuth_shape [of cfg verify now req res cs]
      by (auto simp: optionalAuth_def)
  qed
qed

section \<open>Facts about the middleware chain\<close>

lemma circuitBreaker_frame:
  "headers (responseOf (snd (circuitBreaker cfg now req res cs))) = headers res
   \<and> (\<forall>req' res'. snd (circuitBreaker cfg now req res cs) = Continue req' res' \<longrightarrow> req' = req)"
proof (cases "getServiceFromPath (path req)")
  case None
  then show ?thesis by (simp add: circuitBreaker_None)
next
  case (Some s)
  show ?thesis by (simp add: circuitBreaker_Some [OF Some])
qed

lemma app_use_frame:
  "headers (responseOf (snd (app_use mount (circuitBreaker cfg now) req res cs))) = headers res
   \<and> (\<forall>req' res'. snd (app_use mount (circuitBreaker cfg now) req res cs) = Continue req' res'
          \<longrightarrow> req' = req)"
proof (cases "matchedPrefix mount (path req)")
  case None
  then show ?thesis by (simp add: app_use_def)
next
  case (Some k)
  let ?req = "req\<lparr> path := trimPrefix k (path req) \<rparr>"
  obtain cs' fl where cb: "circuitBreaker cfg now ?req res cs = (cs', fl)"
    by (cases "circuitBreaker cfg now ?req res cs")
  have fr: "headers (responseOf fl) = headers res"
    and same: "\<And>req' res'. fl = Continue req' res' \<Longrightarrow> req' = ?req"
    using circuitBreaker_frame [of cfg now ?req res cs] cb by simp_all
  show ?thesis
  proof (cases fl)
    case (Finished r)
    then show ?thesis using Some cb fr by (simp add: app_use_def)
  next
    case (Continue req' res')
    then have "req' = ?req" by (rule same)
    then show ?thesis using Some cb fr Continue by (simp add: app_use_def)
  qed
qed
















lemma servicePipeline_limited:
  "servicePipeline cfg verify now suffix suffix' True mode req cs =
     Some (cs, Rejected (newResponse\<lparr> statusCode := 429,
                        body := Some \<lparr> error = ''Too many requests'',
                                        message = ''Rate limit exceeded'',
                                        timestamp = None \<rparr> \<rparr>))"
  by (simp add: servicePipeline_def rateLimiter_def)

lemma servicePipeline_unlimited:
  "servicePipeline cfg verify now suffix suffix' False mode req cs =
     (case app_use ''/v1'' (circuitBreaker cfg now)
             (req\<lparr> xRequestId := Some (assignedId now suffix req) \<rparr>)
             (newResponse\<lparr> headers := [''X-Request-ID'' \<mapsto> assignedId now suffix req] \<rparr>) cs of
        (cs1, Finished res) \<Rightarrow> Some (cs1, Rejected res)
      | (cs1, Continue req2 res2) \<Rightarrow>
          (case authMiddleware mode cfg verify now req2 res2 cs1 of
             Inl _ \<Rightarrow> None
           | Inr (cs2, Finished res) \<Rightarrow> Some (cs2, Rejected res)
           | Inr (cs2, Continue req3 res3) \<Rightarrow>
               Some (cs2, Forwarded req3 res3 (onProxyReq now suffix' req3))))"
  by (simp add: servicePipeline_def rateLimiter_def requestValidator_def Let_def assignedId_def
        newResponse_def)

lemma assignedId_truthy: "\<not> falsy (Some (assignedId now suffix req))"
  by (cases "xRequestId req") (auto simp: assignedId_def freshRequestId_def)

lemma onProxyReq_id:
  "\<not> falsy (xRequestId req) \<Longrightarrow> onProxyReq now suffix req ''X-Request-ID'' = xRequestId req"
  by (cases "xRequestId req") (auto simp: onProxyReq_def Let_def split: option.splits)

section \<open>Facts about histories\<close>

lemma nonNegative_step:
  assumes "nonNegative (fst st)"
  shows "nonNegative (fst (step cfg st ev))"
proof (cases st)
  case (Pair cs pd)
  show ?thesis
  proof (cases ev)
    case (Admit p now)
    have "fst (step cfg (cs, pd) (Admit p now))
            = fst (circuitBreaker cfg now (requestFor p) newResponse cs)"
      by (simp split: prod.splits Flow.splits)
    then show ?thesis
      using assms Pair Admit by (simp add: nonNegative_circuitBreaker)
  next
    case (Send s status now)
    then show ?thesis
      using assms Pair by (simp add: nonNegative_sendHook)
  qed
qed

lemma nonNegative_foldl_step:
  "nonNegative (fst st) \<Longrightarrow> nonNegative (fst (foldl (step cfg) st evs))"
  by (induction evs arbitrary: st) (simp_all add: nonNegative_step)

lemma nonNegative_reachable:
  "reachable cfg st \<Longrightarrow> nonNegative (fst st)"
  unfolding reachable_def exec_def
  using nonNegative_foldl_step [of "(Map.empty, \<lambda>_. 0)" cfg]
  by (auto simp: nonNegative_def)

lemma reachable_exec: "reachable cfg (exec cfg evs)"
  unfolding reachable_def by blast

lemma identities_service: "getServiceFromPath ''/v1/identities'' = Some ''identities''"
  by (simp add: isWordChar_def)

lemma circuitOf_circuitWith:
  "circuitOf (circuitWith f t ph) ''identities'' = \<lparr> failures = f, lastFailureTime = t, state = ph \<rparr>"
  by (simp add: circuitOf_simps circuitWith_def)

lemma nonNegative_circuitWith: "0 \<le> f \<Longrightarrow> nonNegative (circuitWith f t ph)"
  by (simp add: nonNegative_def circuitWith_def)

lemma path_identitiesRequest: "path identitiesRequest = ''/v1/identities''"
  by (simp add: identitiesRequest_def requestFor_def)

lemma service_identitiesRequest:
  "getServiceFromPath (path identitiesRequest) = Some ''identities''"
  by (simp only: path_identitiesRequest identities_service)

lemma OPEN_stored: "state (circuitOf cs s) = OPEN \<Longrightarrow> cs(s \<mapsto> circuitOf cs s) = cs"
  by (rule stored_circuit, rule not_CLOSED_stored) simp

lemma HALF_OPEN_stored: "state (circuitOf cs s) = HALF_OPEN \<Longrightarrow> cs(s \<mapsto> circuitOf cs s) = cs"
  by (rule stored_circuit, rule not_CLOSED_stored) simp

lemma circuitOf_recordFailure_rate:
  "circuitOf (recordFailure cfg now s cs) s =
     (if real_of_int (failures (circuitOf cs s) + 1) / 10
           \<ge> real_of_int (errorThresholdPercentage cfg) / 100
      then (circuitOf cs s)\<lparr> failures := failures (circuitOf cs s) + 1,
             lastFailureTime := now, state := OPEN \<rparr>
      else (circuitOf cs s)\<lparr> failures := failures (circuitOf cs s) + 1,
             lastFailureTime := now \<rparr>)"
  by (simp add: circuitOf_recordFailure failureRate_int)

lemma probeTrace_circuit:
  "circuitOf (fst (exec defaultConfig probeTrace)) ''identities'' =
     \<lparr> failures = 3, lastFailureTime = 1, state = HALF_OPEN \<rparr>"
  by code_simp

lemma probeTrace_pending: "snd (exec defaultConfig probeTrace) ''identities'' = 1"
  by code_simp

lemma probeTrace_sorted: "sorted (map eventTime probeTrace)"
  by (simp add: probeTrace_def)

lemma showInt_100: "showInt 100 = ''100''"
  by (simp add: showInt_def showNat.simps digitChar_def)

lemma assignedId_identitiesRequest:
  "assignedId 100 ''k3j2h1g0f'' identitiesRequest = ''req_100_k3j2h1g0f''"
  by (simp add: assignedId_def identitiesRequest_def requestFor_def freshRequestId_def showInt_100)



lemma limited_run:
  "servicePipeline cfg verify now suffix suffix' True mode req cs
     = Some (cs, Rejected rateLimitedResponse)"
  by (simp add: servicePipeline_limited rateLimitedResponse_def newResponse_def)

lemma jwtAuth_never_throws: "jwtAuth cfg verify now req res cs \<noteq> Inl e"
  using jwtAuth_shape [of cfg verify now req res cs] by auto

text \<open>With a truthy header \<^verbatim>\<open>optionalAuth\<close> does exactly what \<^verbatim>\<open>jwtAuth\<close> does.\<close>

lemma optionalAuth_present:
  "\<not> falsy (authorization req) \<Longrightarrow>
   jwtAuth cfg verify now req res cs = Inr (optionalAuth cfg verify now req res cs)"
  by (cases "jwtAuth cfg verify now req res cs")
     (simp_all add: optionalAuth_def jwtAuth_never_throws)

lemma optionalAuth_absent:
  "falsy (authorization req) \<Longrightarrow> optionalAuth cfg verify now req res cs = (cs, Continue req res)"
  by (simp add: optionalAuth_def)

lemma bearer_token:
  "authorization req = Some (''Bearer '' @ token) \<Longrightarrow>
   \<not> falsy (authorization req) \<and> startsWith (the (authorization req)) ''Bearer ''
   \<and> drop 7 (the (authorization req)) = token"
  by (simp add: startsWith_def)

lemma service_token:
  "authorization req = Some (''Service '' @ token) \<Longrightarrow>
   \<not> falsy (authorization req) \<and> \<not> startsWith (the (authorization req)) ''Bearer ''
   \<and> startsWith (the (authorization req)) ''Service ''
   \<and> drop 8 (the (authorization req)) = token"
  by (simp add: startsWith_def)

lemma jwtAuth_token:
  assumes "authorization req = Some (''Bearer '' @ token)
           \<or> authorization req = Some (''Service '' @ token)"
    and "jwt_verify decode token (jwtSecret cfg) now = Inl err"
  shows "jwtAuth cfg (jwt_verify decode) now req res cs =
     Inr (foldl (\<lambda>acc t. sendHook cfg now 401 t acc) cs (sendHooks res),
          Finished (res\<lparr> statusCode := 401, body := Some (unauthorized ''Invalid token'' now) \<rparr>))"
proof -
  have i: "instanceofJsonWebTokenError err"
    using assms(2) by (rule jwt_verify_error)
  from assms(1) show ?thesis
  proof
    assume "authorization req = Some (''Bearer '' @ token)"
    from bearer_token [OF this] show ?thesis
      using assms(2) i by (simp add: jwtAuth_def Let_def res_status_json_eq)
  next
    assume "authorization req = Some (''Service '' @ token)"
    from service_token [OF this] show ?thesis
      using assms(2) i by (simp add: jwtAuth_def Let_def res_status_json_eq)
  qed
qed

lemma jwt_verify_expired:
  "expiry (payload (decode token)) = Some e \<Longrightarrow> e \<le> now div 1000 \<Longrightarrow>
   \<exists>err. jwt_verify decode token secret now = Inl err"
  by (simp add: jwt_verify_def Let_def)

text \<open>
  The branch that answers \<^verbatim>\<open>Token expired\<close> comes second, behind a test that every
  error of the library passes.
\<close>

lemma expired_well_signed:
  assumes "authorization req = Some (''Bearer '' @ token)
           \<or> authorization req = Some (''Service '' @ token)"
    and "wellFormed (decode token)" and "signedWith (decode token) = jwtSecret cfg"
    and "expiry (payload (decode token)) = Some e" and "e \<le> now div 1000"
  shows "jwt_verify decode token (jwtSecret cfg) now = Inl TokenExpiredError
    \<and> message (the (body (responseOf (snd (projr (jwtAuth cfg (jwt_verify decode) now req res cs))))))
          = ''Invalid token''"
proof -
  have v: "jwt_verify decode token (jwtSecret cfg) now = Inl TokenExpiredError"
    using assms(2-5) by (simp add: jwt_verify_def Let_def)
  from jwtAuth_token [OF assms(1) v] show ?thesis
    using v by (simp add: unauthorized_def)
qed

lemma authMiddleware_cases:
  obtains (forward) req' where
      "authMiddleware mode cfg verify now req res cs = Inr (cs, Continue req' res)"
      "xRequestId req' = xRequestId req"
  | (reject) code data where
      "authMiddleware mode cfg verify now req res cs =
         Inr (foldl (\<lambda>acc t. sendHook cfg now code t acc) cs (sendHooks res),
              Finished (res\<lparr> statusCode := code, body := Some data \<rparr>))"
      "code = 401
       \<or> code = 500
          \<and> (\<exists>token e. verify token (jwtSecret cfg) now = Inl e \<and> \<not> instanceofJsonWebTokenError e)"
  using authMiddleware_shape [of mode cfg verify now req res cs] by blast

lemma OPEN_again:
  "state c = OPEN \<Longrightarrow>
   c\<lparr> failures := a, lastFailureTime := b, state := OPEN \<rparr>
     = c\<lparr> failures := a, lastFailureTime := b \<rparr>"
  by (cases c) simp

section \<open>The claims\<close>

subsection \<open>C1\<close>

text \<open>
  C1, as stated, has the admission check return Allowed exactly once: further checks
  while the circuit is HALF_OPEN are to be rejected. \<^verbatim>\<open>circuitBreaker\<close> rejects only
  in the OPEN phase; a second check, with no outcome recorded in between, is let
  through as well.
\<close>

theorem second_probe_counterexample:
  "state (circuitOf (circuitWith 5 0 OPEN) ''identities'') = OPEN
   \<and> resetTimeoutMs defaultConfig
         \<le> 60000 - lastFailureTime (circuitOf (circuitWith 5 0 OPEN) ''identities'')
   \<and> admitted (snd (circuitBreaker defaultConfig 60000 identitiesRequest newResponse
         (circuitWith 5 0 OPEN)))
   \<and> state (circuitOf (fst (circuitBreaker defaultConfig 60000 identitiesRequest newResponse
         (circuitWith 5 0 OPEN))) ''identities'') = HALF_OPEN
   \<and> admitted (snd (circuitBreaker defaultConfig 60001 identitiesRequest newResponse
         (fst (circuitBreaker defaultConfig 60000 identitiesRequest newResponse
            (circuitWith 5 0 OPEN)))))
   \<and> state (circuitOf (fst (circuitBreaker defaultConfig 60001 identitiesRequest newResponse
         (fst (circuitBreaker defaultConfig 60000 identitiesRequest newResponse
            (circuitWith 5 0 OPEN))))) ''identities'') = HALF_OPEN"
  by (simp add: circuitBreaker_Some [OF service_identitiesRequest] circuitOf_circuitWith
        circuitOf_upd defaultConfig_def)

text \<open>
  C1, amended. For every service whose circuit is OPEN and for which the reset timeout
  has elapsed since \<open>lastFailureTime\<close>, the next admission check lets the request
  through and moves the circuit to HALF_OPEN, changing nothing else. While the circuit
  is HALF_OPEN every further admission check for the service is let through too and
  leaves the registry as it is: the number of probes is not limited.
\<close>

theorem probe_admission:
  assumes "getServiceFromPath (path req) = Some s"
  shows "(state (circuitOf cs s) = OPEN
            \<and> resetTimeoutMs cfg \<le> now - lastFailureTime (circuitOf cs s) \<longrightarrow>
          admitted (snd (circuitBreaker cfg now req res cs))
          \<and> circuitOf (fst (circuitBreaker cfg now req res cs)) s
               = (circuitOf cs s)\<lparr> state := HALF_OPEN \<rparr>)
    \<and> (state (circuitOf cs s) = HALF_OPEN \<longrightarrow>
          admitted (snd (circuitBreaker cfg now req res cs))
          \<and> fst (circuitBreaker cfg now req res cs) = cs)"
  using HALF_OPEN_stored [of cs s]
  by (simp add: circuitBreaker_Some [OF assms] circuitOf_upd)

theorem probe_admission_witness:
  "getServiceFromPath (path identitiesRequest) = Some ''identities''
   \<and> state (circuitOf (circuitWith 5 0 OPEN) ''identities'') = OPEN
   \<and> resetTimeoutMs defaultConfig
         \<le> 60000 - lastFailureTime (circuitOf (circuitWith 5 0 OPEN) ''identities'')
   \<and> state (circuitOf (circuitWith 5 0 HALF_OPEN) ''identities'') = HALF_OPEN
   \<and> admitted (snd (circuitBreaker defaultConfig 60000 identitiesRequest newResponse
         (circuitWith 5 0 OPEN)))
   \<and> circuitOf (fst (circuitBreaker defaultConfig 60000 identitiesRequest newResponse
         (circuitWith 5 0 OPEN))) ''identities''
        = \<lparr> failures = 5, lastFailureTime = 0, state = HALF_OPEN \<rparr>
   \<and> admitted (snd (circuitBreaker defaultConfig 60001 identitiesRequest newResponse
         (circuitWith 5 0 HALF_OPEN)))
   \<and> fst (circuitBreaker defaultConfig 60001 identitiesRequest newResponse
         (circuitWith 5 0 HALF_OPEN)) = circuitWith 5 0 HALF_OPEN"
proof -
  have e: "resetTimeoutMs defaultConfig = 60000"
    by (simp add: defaultConfig_def)
  note first = probe_admission [OF service_identitiesRequest, where cfg = defaultConfig
      and now = 60000 and res = newResponse and cs = "circuitWith 5 0 OPEN"]
  note later = probe_admission [OF service_identitiesRequest, where cfg = defaultConfig
      and now = 60001 and res = newResponse and cs = "circuitWith 5 0 HALF_OPEN"]
  show ?thesis
    using first later
    by (simp add: circuitOf_circuitWith service_identitiesRequest e)
qed


subsection \<open>C2\<close>



subsection \<open>C3\<close>

text \<open>
  C3, as stated, has every token whose \<^verbatim>\<open>exp\<close> is in the past answered with
  \<^verbatim>\<open>Token expired\<close>, whether or not its signature verifies. \<^verbatim>\<open>jwtAuth\<close> leaves the
  whole validation to one call of \<^verbatim>\<open>jwt.verify\<close>, which checks the signature before
  the expiry: an expired token signed under another key is answered with
  \<^verbatim>\<open>Invalid token\<close>.
\<close>

theorem forged_expired_counterexample:
  "authorization bearerRequest = Some (''Bearer '' @ ''abc'')
   \<and> expiry (payload (tokensSignedWith ''wrong-key'' ''abc'')) = Some 2000
   \<and> 2000 \<le> (5000000::int) div 1000
   \<and> jwtAuth defaultConfig (jwt_verify (tokensSignedWith ''wrong-key'')) 5000000 bearerRequest newResponse
        Map.empty
      = Inr (Map.empty,
             Finished (newResponse\<lparr> statusCode := 401,
                body := Some \<lparr> error = ''Unauthorized'', message = ''Invalid token'',
                                timestamp = Some 5000000 \<rparr> \<rparr>))"
proof -
  have a: "authorization bearerRequest = Some (''Bearer '' @ ''abc'')"
    by (simp add: bearerRequest_def requestFor_def)
  have v: "jwt_verify (tokensSignedWith ''wrong-key'') ''abc'' (jwtSecret defaultConfig) 5000000
             = Inl JsonWebTokenError"
    by (simp add: jwt_verify_def tokensSignedWith_def defaultConfig_def)
  have "jwtAuth defaultConfig (jwt_verify (tokensSignedWith ''wrong-key'')) 5000000 bearerRequest newResponse
          Map.empty
        = Inr (Map.empty,
               Finished (newResponse\<lparr> statusCode := 401,
                  body := Some (unauthorized ''Invalid token'' 5000000) \<rparr>))"
    using jwtAuth_token [OF disjI1 [OF a] v, of newResponse Map.empty]
    by (simp add: newResponse_def)
  then show ?thesis
    using a by (simp add: unauthorized_def tokensSignedWith_def)
qed

text \<open>
  C3, amended. For every token whose \<^verbatim>\<open>exp\<close> claim is in the past, presented as
  \<^verbatim>\<open>Bearer <token>\<close> or \<^verbatim>\<open>Service <token>\<close>, \<^verbatim>\<open>jwtAuth\<close> rejects the request: it
  responds 401 with error \<^verbatim>\<open>Unauthorized\<close>, does not call \<^verbatim>\<open>next()\<close> and attaches no
  identity. When the token is malformed or its signature does not verify, the failure
  is classified as an invalid token, with message \<^verbatim>\<open>Invalid token\<close>.
\<close>

theorem expired_token_rejected:
  assumes "authorization req = Some (''Bearer '' @ token)
           \<or> authorization req = Some (''Service '' @ token)"
    and "expiry (payload (decode token)) = Some e"
    and "e \<le> now div 1000"
  shows "\<exists>cs' msg.
     jwtAuth cfg (jwt_verify decode) now req res cs =
       Inr (cs', Finished (res\<lparr> statusCode := 401, body := Some (unauthorized msg now) \<rparr>))
     \<and> error (unauthorized msg now) = ''Unauthorized''
     \<and> (\<not> wellFormed (decode token) \<or> signedWith (decode token) \<noteq> jwtSecret cfg \<longrightarrow>
           msg = ''Invalid token'')"
proof -
  obtain err where "jwt_verify decode token (jwtSecret cfg) now = Inl err"
    using assms(2,3) jwt_verify_expired [of decode token e now "jwtSecret cfg"] by blast
  from jwtAuth_token [OF assms(1) this]
  have "jwtAuth cfg (jwt_verify decode) now req res cs =
     Inr (foldl (\<lambda>acc t. sendHook cfg now 401 t acc) cs (sendHooks res),
          Finished (res\<lparr> statusCode := 401, body := Some (unauthorized ''Invalid token'' now) \<rparr>))
     \<and> error (unauthorized ''Invalid token'' now) = ''Unauthorized''"
    by (simp add: unauthorized_def)
  then show ?thesis by blast
qed

theorem expired_token_rejected_witness:
  "(authorization bearerRequest = Some (''Bearer '' @ ''abc'')
      \<or> authorization bearerRequest = Some (''Service '' @ ''abc''))
   \<and> expiry (payload (tokensSignedWith ''wrong-key'' ''abc'')) = Some 2000
   \<and> 2000 \<le> (5000000::int) div 1000
   \<and> signedWith (tokensSignedWith ''wrong-key'' ''abc'') \<noteq> jwtSecret defaultConfig
   \<and> (\<exists>cs'. jwtAuth defaultConfig (jwt_verify (tokensSignedWith ''wrong-key'')) 5000000 bearerRequest
               newResponse Map.empty
             = Inr (cs', Finished (newResponse\<lparr> statusCode := 401,
                      body := Some (unauthorized ''Invalid token'' 5000000) \<rparr>)))"
proof -
  have a: "authorization bearerRequest = Some (''Bearer '' @ ''abc'')
      \<or> authorization bearerRequest = Some (''Service '' @ ''abc'')"
    by (simp add: bearerRequest_def requestFor_def)
  have x: "expiry (payload (tokensSignedWith ''wrong-key'' ''abc'')) = Some 2000"
    by (simp add: tokensSignedWith_def)
  have t: "2000 \<le> (5000000::int) div 1000" by simp
  have k: "signedWith (tokensSignedWith ''wrong-key'' ''abc'') \<noteq> jwtSecret defaultConfig"
    by (simp add: tokensSignedWith_def defaultConfig_def)
  from expired_token_rejected [where decode = "tokensSignedWith ''wrong-key''"
      and token = "''abc''" and req = bearerRequest and cfg = defaultConfig
      and res = newResponse and cs = Map.empty, OF a x t] k
  have "\<exists>cs'. jwtAuth defaultConfig (jwt_verify (tokensSignedWith ''wrong-key'')) 5000000 bearerRequest
               newResponse Map.empty
             = Inr (cs', Finished (newResponse\<lparr> statusCode := 401,
                      body := Some (unauthorized ''Invalid token'' 5000000) \<rparr>))"
    by auto
  with a x t k show ?thesis by blast
qed

subsection \<open>C4\<close>

text \<open>
  C4. On an optional-auth route a request whose \<^verbatim>\<open>Authorization\<close> header is present
  but fails validation is to pass on without identity and without an error response.
  \<^verbatim>\<open>optionalAuth\<close> calls \<^verbatim>\<open>next()\<close> in a \<^verbatim>\<open>catch\<close> around \<^verbatim>\<open>jwtAuth\<close>, but
  \<^verbatim>\<open>jwtAuth\<close> throws nothing: it has already answered 401. Here is the request
  \<^verbatim>\<open>Authorization: Basic abc\<close> on \<^verbatim>\<open>/v1/auth\<close>: the response is sent and
  \<^verbatim>\<open>next()\<close> is not called.
\<close>

theorem optionalAuth_bad_scheme:
  "authorization basicRequest = Some ''Basic abc''
   \<and> optionalAuth defaultConfig (jwt_verify (tokensSignedWith ''k'')) 100 basicRequest newResponse Map.empty
      = (Map.empty,
         Finished (newResponse\<lparr> statusCode := 401,
            body := Some \<lparr> error = ''Unauthorized'',
                            message = ''Invalid authorization header format'',
                            timestamp = Some 100 \<rparr> \<rparr>))
   \<and> \<not> admitted (snd (optionalAuth defaultConfig (jwt_verify (tokensSignedWith ''k'')) 100 basicRequest
                          newResponse Map.empty))"
  by (simp add: optionalAuth_def jwtAuth_def basicRequest_def requestFor_def startsWith_def
        res_status_json_eq newResponse_def unauthorized_def Let_def)

subsection \<open>C5\<close>

text \<open>
  C5, as stated, asks for a rejection whenever the elapsed time has not exceeded the
  reset timeout. The source compares with \<^verbatim>\<open><\<close>: when the elapsed time equals the
  timeout the request is let through and the circuit becomes HALF_OPEN.
\<close>

theorem admission_at_timeout_counterexample:
  "state (circuitOf (circuitWith 5 0 OPEN) ''identities'') = OPEN
   \<and> \<not> (resetTimeoutMs defaultConfig
          < 60000 - lastFailureTime (circuitOf (circuitWith 5 0 OPEN) ''identities''))
   \<and> admitted (snd (circuitBreaker defaultConfig 60000 identitiesRequest newResponse
         (circuitWith 5 0 OPEN)))
   \<and> statusCode (responseOf (snd (circuitBreaker defaultConfig 60000 identitiesRequest
         newResponse (circuitWith 5 0 OPEN)))) \<noteq> 503
   \<and> state (circuitOf (fst (circuitBreaker defaultConfig 60000 identitiesRequest newResponse
         (circuitWith 5 0 OPEN))) ''identities'') = HALF_OPEN"
  by (simp add: circuitBreaker_Some [OF service_identitiesRequest] circuitOf_circuitWith
        circuitOf_upd defaultConfig_def newResponse_def)

text \<open>
  C5, amended. For every admission check while a service's circuit is OPEN, on a
  response whose \<^verbatim>\<open>send\<close> has not been wrapped yet: if the elapsed time since
  \<open>lastFailureTime\<close> is strictly less than the reset timeout, the request is rejected
  with status 503 and the envelope \<^verbatim>\<open>Service Unavailable\<close> /
  \<^verbatim>\<open>Circuit breaker is OPEN\<close>, \<^verbatim>\<open>next()\<close> is not called and the registry is unchanged;
  otherwise (elapsed time at least the timeout) the circuit moves from OPEN to
  HALF_OPEN and that request is let through.
\<close>

theorem admission_while_OPEN:
  assumes "getServiceFromPath (path req) = Some s"
    and "state (circuitOf cs s) = OPEN"
    and "sendHooks res = []"
  shows "(now - lastFailureTime (circuitOf cs s) < resetTimeoutMs cfg \<longrightarrow>
           circuitBreaker cfg now req res cs =
             (cs, Finished (res\<lparr> statusCode := 503,
                    body := Some \<lparr> error = ''Service Unavailable'',
                                    message = ''Circuit breaker is OPEN'',
                                    timestamp = Some now \<rparr> \<rparr>)))
    \<and> (resetTimeoutMs cfg \<le> now - lastFailureTime (circuitOf cs s) \<longrightarrow>
           circuitBreaker cfg now req res cs =
             (cs(s \<mapsto> (circuitOf cs s)\<lparr> state := HALF_OPEN \<rparr>),
              Continue req (res\<lparr> sendHooks := [s] \<rparr>)))"
  using assms(2,3) OPEN_stored [OF assms(2)]
  by (simp add: circuitBreaker_Some [OF assms(1)])

theorem admission_while_OPEN_witness:
  "getServiceFromPath (path identitiesRequest) = Some ''identities''
   \<and> state (circuitOf (circuitWith 5 0 OPEN) ''identities'') = OPEN
   \<and> sendHooks newResponse = []
   \<and> 59999 - lastFailureTime (circuitOf (circuitWith 5 0 OPEN) ''identities'')
         < resetTimeoutMs defaultConfig
   \<and> resetTimeoutMs defaultConfig
         \<le> 60000 - lastFailureTime (circuitOf (circuitWith 5 0 OPEN) ''identities'')
   \<and> circuitBreaker defaultConfig 59999 identitiesRequest newResponse (circuitWith 5 0 OPEN) =
        (circuitWith 5 0 OPEN,
         Finished (newResponse\<lparr> statusCode := 503,
                    body := Some \<lparr> error = ''Service Unavailable'',
                                    message = ''Circuit breaker is OPEN'',
                                    timestamp = Some 59999 \<rparr> \<rparr>))
   \<and> circuitBreaker defaultConfig 60000 identitiesRequest newResponse (circuitWith 5 0 OPEN) =
        (circuitWith 5 0 HALF_OPEN,
         Continue identitiesRequest (newResponse\<lparr> sendHooks := [''identities''] \<rparr>))"
proof -
  have h: "state (circuitOf (circuitWith 5 0 OPEN) ''identities'') = OPEN"
    by (simp add: circuitOf_circuitWith)
  have n: "sendHooks newResponse = []"
    by (simp add: newResponse_def)
  have e: "resetTimeoutMs defaultConfig = 60000"
    by (simp add: defaultConfig_def)
  have u: "(circuitWith 5 0 OPEN)(''identities'' \<mapsto>
             \<lparr> failures = 5, lastFailureTime = 0, state = HALF_OPEN \<rparr>) = circuitWith 5 0 HALF_OPEN"
    by (simp add: circuitWith_def)
  note early = admission_while_OPEN [OF service_identitiesRequest h n,
      where now = 59999 and cfg = defaultConfig]
  note late = admission_while_OPEN [OF service_identitiesRequest h n,
      where now = 60000 and cfg = defaultConfig]
  show ?thesis
    using h n early late
    by (simp add: circuitOf_circuitWith service_identitiesRequest e u)
qed

subsection \<open>C6\<close>

text \<open>
  C6. Recording a failure for a service whose circuit is CLOSED increments \<open>failures\<close>
  and moves the circuit to OPEN exactly when the incremented count divided by the fixed
  denominator 10 is at least \<open>errorThresholdPercentage / 100\<close>; below that the circuit
  stays CLOSED. Every admission check while the circuit is CLOSED lets the request
  through and leaves the circuit CLOSED.
\<close>

theorem recordFailure_in_CLOSED:
  assumes "state (circuitOf cs s) = CLOSED"
  shows "(state (circuitOf (recordFailure cfg now s cs) s) = OPEN \<longleftrightarrow>
            real_of_int (failures (circuitOf cs s) + 1) / 10
              \<ge> real_of_int (errorThresholdPercentage cfg) / 100)
    \<and> state (circuitOf (recordFailure cfg now s cs) s) =
          (if real_of_int (failures (circuitOf cs s) + 1) / 10
                \<ge> real_of_int (errorThresholdPercentage cfg) / 100
           then OPEN else CLOSED)
    \<and> failures (circuitOf (recordFailure cfg now s cs) s) = failures (circuitOf cs s) + 1
    \<and> (getServiceFromPath (path req) = Some s \<longrightarrow>
          admitted (snd (circuitBreaker cfg now' req res cs))
          \<and> state (circuitOf (fst (circuitBreaker cfg now' req res cs)) s) = CLOSED)"
proof -
  have adm: "getServiceFromPath (path req) = Some s \<longrightarrow>
          admitted (snd (circuitBreaker cfg now' req res cs))
          \<and> state (circuitOf (fst (circuitBreaker cfg now' req res cs)) s) = CLOSED"
  proof
    assume p: "getServiceFromPath (path req) = Some s"
    show "admitted (snd (circuitBreaker cfg now' req res cs))
          \<and> state (circuitOf (fst (circuitBreaker cfg now' req res cs)) s) = CLOSED"
      using assms by (simp add: circuitBreaker_Some [OF p])
  qed
  show ?thesis
    using assms adm by (simp add: circuitOf_recordFailure_rate)
qed

theorem recordFailure_in_CLOSED_witness:
  "state (circuitOf (circuitWith 4 0 CLOSED) ''identities'') = CLOSED
   \<and> state (circuitOf (circuitWith 3 0 CLOSED) ''identities'') = CLOSED
   \<and> getServiceFromPath (path identitiesRequest) = Some ''identities''
   \<and> state (circuitOf (recordFailure defaultConfig 9 ''identities'' (circuitWith 4 0 CLOSED))
         ''identities'') = OPEN
   \<and> state (circuitOf (recordFailure defaultConfig 9 ''identities'' (circuitWith 3 0 CLOSED))
         ''identities'') = CLOSED
   \<and> admitted (snd (circuitBreaker defaultConfig 9 identitiesRequest newResponse
         (circuitWith 4 0 CLOSED)))"
proof -
  have h4: "state (circuitOf (circuitWith 4 0 CLOSED) ''identities'') = CLOSED"
    and h3: "state (circuitOf (circuitWith 3 0 CLOSED) ''identities'') = CLOSED"
    by (simp_all add: circuitOf_circuitWith)
  have e: "errorThresholdPercentage defaultConfig = 50"
    by (simp add: defaultConfig_def)
  note four = recordFailure_in_CLOSED [OF h4, where cfg = defaultConfig and now = 9
      and req = identitiesRequest and now' = 9 and res = newResponse]
  note three = recordFailure_in_CLOSED [OF h3, where cfg = defaultConfig and now = 9
      and req = identitiesRequest and now' = 9 and res = newResponse]
  show ?thesis
    using h4 h3 four three
    by (simp add: circuitOf_circuitWith service_identitiesRequest e)
qed

subsection \<open>C7\<close>

text \<open>
  C7, as stated, has every failure recorded in HALF_OPEN return the circuit to OPEN.
  \<^verbatim>\<open>recordFailure\<close> opens the circuit only through its threshold test. In the history
  \<open>probeTrace\<close> two requests admitted before the circuit opened succeed while it is
  open, so the counter is 3 when the probe is admitted; the probe's failure makes it
  4, below the threshold of 5, and the circuit stays HALF_OPEN and keeps admitting.
\<close>

theorem failed_probe_counterexample:
  "reachable defaultConfig (exec defaultConfig probeTrace)
   \<and> sorted (map eventTime probeTrace)
   \<and> state (circuitOf (fst (exec defaultConfig probeTrace)) ''identities'') = HALF_OPEN
   \<and> 0 < snd (exec defaultConfig probeTrace) ''identities''
   \<and> lastFailureTime (circuitOf (fst (step defaultConfig (exec defaultConfig probeTrace)
          (Send ''identities'' 500 60002))) ''identities'') = 60002
   \<and> state (circuitOf (fst (step defaultConfig (exec defaultConfig probeTrace)
          (Send ''identities'' 500 60002))) ''identities'') \<noteq> OPEN
   \<and> admitted (snd (circuitBreaker defaultConfig 60003 identitiesRequest newResponse
          (fst (step defaultConfig (exec defaultConfig probeTrace)
             (Send ''identities'' 500 60002)))))"
proof -
  obtain cs pd where ex: "exec defaultConfig probeTrace = (cs, pd)"
    by (cases "exec defaultConfig probeTrace")
  have c: "circuitOf cs ''identities'' = \<lparr> failures = 3, lastFailureTime = 1, state = HALF_OPEN \<rparr>"
    using probeTrace_circuit ex by simp
  have p: "pd ''identities'' = 1"
    using probeTrace_pending ex by simp
  have e: "errorThresholdPercentage defaultConfig = 50"
    by (simp add: defaultConfig_def)
  have after: "circuitOf (recordFailure defaultConfig 60002 ''identities'' cs) ''identities''
                 = \<lparr> failures = 4, lastFailureTime = 60002, state = HALF_OPEN \<rparr>"
    by (simp add: circuitOf_recordFailure c e)
  show ?thesis
    using reachable_exec [of defaultConfig probeTrace] probeTrace_sorted c p
    by (simp add: ex sendHook_def after circuitBreaker_Some [OF service_identitiesRequest])
qed

text \<open>
  C7, amended. For every circuit in HALF_OPEN phase: recording a success (status below
  500) moves it to CLOSED with \<open>failures\<close> reset to zero; recording a failure (status
  500 or more) increments \<open>failures\<close>, sets \<open>lastFailureTime\<close>, and returns the circuit
  to OPEN exactly when the incremented count over 10 reaches
  \<open>errorThresholdPercentage / 100\<close>, otherwise the circuit stays HALF_OPEN. When it
  returns to OPEN, admission checks within the reset timeout are rejected with 503.
  It does return to OPEN whenever the count before the failure already met the
  threshold.
\<close>

theorem outcome_in_HALF_OPEN:
  assumes "state (circuitOf cs s) = HALF_OPEN"
  shows "(status < 500 \<longrightarrow>
           circuitOf (sendHook cfg now status s cs) s
             = (circuitOf cs s)\<lparr> state := CLOSED, failures := 0 \<rparr>)
    \<and> (500 \<le> status \<longrightarrow>
           circuitOf (sendHook cfg now status s cs) s
             = (circuitOf cs s)\<lparr> failures := failures (circuitOf cs s) + 1,
                  lastFailureTime := now,
                  state := (if real_of_int (failures (circuitOf cs s) + 1) / 10
                                 \<ge> real_of_int (errorThresholdPercentage cfg) / 100
                            then OPEN else HALF_OPEN) \<rparr>)
    \<and> (500 \<le> status
         \<and> real_of_int (failures (circuitOf cs s) + 1) / 10
               \<ge> real_of_int (errorThresholdPercentage cfg) / 100
         \<and> getServiceFromPath (path req) = Some s \<and> sendHooks res = []
         \<and> now' - now < resetTimeoutMs cfg \<longrightarrow>
           \<not> admitted (snd (circuitBreaker cfg now' req res (sendHook cfg now status s cs)))
           \<and> statusCode (responseOf (snd (circuitBreaker cfg now' req res
                  (sendHook cfg now status s cs)))) = 503)
    \<and> (500 \<le> status
         \<and> real_of_int (failures (circuitOf cs s)) / 10
               \<ge> real_of_int (errorThresholdPercentage cfg) / 100 \<longrightarrow>
           state (circuitOf (sendHook cfg now status s cs) s) = OPEN)"
proof -
  have mono: "real_of_int (failures (circuitOf cs s)) / 10
               \<ge> real_of_int (errorThresholdPercentage cfg) / 100
        \<Longrightarrow> real_of_int (failures (circuitOf cs s) + 1) / 10
               \<ge> real_of_int (errorThresholdPercentage cfg) / 100"
    by (simp add: failureRate_int)
  have succ: "status < 500 \<longrightarrow>
           circuitOf (sendHook cfg now status s cs) s
             = (circuitOf cs s)\<lparr> state := CLOSED, failures := 0 \<rparr>"
    using assms by (simp add: sendHook_def circuitOf_recordSuccess)
  have fail: "500 \<le> status \<longrightarrow>
           circuitOf (sendHook cfg now status s cs) s
             = (circuitOf cs s)\<lparr> failures := failures (circuitOf cs s) + 1,
                  lastFailureTime := now,
                  state := (if real_of_int (failures (circuitOf cs s) + 1) / 10
                                 \<ge> real_of_int (errorThresholdPercentage cfg) / 100
                            then OPEN else HALF_OPEN) \<rparr>"
    using assms by (simp add: sendHook_def circuitOf_recordFailure_rate)
  have rej: "500 \<le> status
         \<and> real_of_int (failures (circuitOf cs s) + 1) / 10
               \<ge> real_of_int (errorThresholdPercentage cfg) / 100
         \<and> getServiceFromPath (path req) = Some s \<and> sendHooks res = []
         \<and> now' - now < resetTimeoutMs cfg \<longrightarrow>
           \<not> admitted (snd (circuitBreaker cfg now' req res (sendHook cfg now status s cs)))
           \<and> statusCode (responseOf (snd (circuitBreaker cfg now' req res
                  (sendHook cfg now status s cs)))) = 503"
  proof (intro impI, elim conjE)
    assume a: "500 \<le> status"
      "real_of_int (failures (circuitOf cs s) + 1) / 10
               \<ge> real_of_int (errorThresholdPercentage cfg) / 100"
      "sendHooks res = []" "now' - now < resetTimeoutMs cfg"
      and p: "getServiceFromPath (path req) = Some s"
    show "\<not> admitted (snd (circuitBreaker cfg now' req res (sendHook cfg now status s cs)))
           \<and> statusCode (responseOf (snd (circuitBreaker cfg now' req res
                  (sendHook cfg now status s cs)))) = 503"
      using a fail by (simp add: circuitBreaker_Some [OF p])
  qed
  have again: "500 \<le> status
         \<and> real_of_int (failures (circuitOf cs s)) / 10
               \<ge> real_of_int (errorThresholdPercentage cfg) / 100 \<longrightarrow>
           state (circuitOf (sendHook cfg now status s cs) s) = OPEN"
    using fail mono by simp
  from succ fail rej again show ?thesis by blast
qed

theorem outcome_in_HALF_OPEN_witness:
  "state (circuitOf (circuitWith 5 0 HALF_OPEN) ''identities'') = HALF_OPEN
   \<and> state (circuitOf (circuitWith 3 1 HALF_OPEN) ''identities'') = HALF_OPEN
   \<and> circuitOf (sendHook defaultConfig 70000 200 ''identities'' (circuitWith 5 0 HALF_OPEN))
         ''identities'' = \<lparr> failures = 0, lastFailureTime = 0, state = CLOSED \<rparr>
   \<and> circuitOf (sendHook defaultConfig 70000 500 ''identities'' (circuitWith 5 0 HALF_OPEN))
         ''identities'' = \<lparr> failures = 6, lastFailureTime = 70000, state = OPEN \<rparr>
   \<and> \<not> admitted (snd (circuitBreaker defaultConfig 70001 identitiesRequest newResponse
         (sendHook defaultConfig 70000 500 ''identities'' (circuitWith 5 0 HALF_OPEN))))
   \<and> circuitOf (sendHook defaultConfig 70000 500 ''identities'' (circuitWith 3 1 HALF_OPEN))
         ''identities'' = \<lparr> failures = 4, lastFailureTime = 70000, state = HALF_OPEN \<rparr>"
proof -
  have h5: "state (circuitOf (circuitWith 5 0 HALF_OPEN) ''identities'') = HALF_OPEN"
    and h3: "state (circuitOf (circuitWith 3 1 HALF_OPEN) ''identities'') = HALF_OPEN"
    by (simp_all add: circuitOf_circuitWith)
  have e: "errorThresholdPercentage defaultConfig = 50" "resetTimeoutMs defaultConfig = 60000"
    by (simp_all add: defaultConfig_def)
  have n: "sendHooks newResponse = []"
    by (simp add: newResponse_def)
  note ok = outcome_in_HALF_OPEN [OF h5, where status = 200 and cfg = defaultConfig
      and now = 70000 and now' = 70001 and req = identitiesRequest and res = newResponse]
  note bad = outcome_in_HALF_OPEN [OF h5, where status = 500 and cfg = defaultConfig
      and now = 70000 and now' = 70001 and req = identitiesRequest and res = newResponse]
  note low = outcome_in_HALF_OPEN [OF h3, where status = 500 and cfg = defaultConfig
      and now = 70000 and now' = 70001 and req = identitiesRequest and res = newResponse]
  show ?thesis
    using h5 h3 ok bad low
    by (simp add: circuitOf_circuitWith service_identitiesRequest e n)
qed

subsection \<open>C8\<close>

text \<open>
  C8. For every circuit in CLOSED phase, recording a success sets \<open>failures\<close> to
  \<open>max 0 (failures - 1)\<close> and leaves the circuit CLOSED; recording successes any number
  of times never drives a non-negative counter below zero; and every operation on the
  registry (\<^verbatim>\<open>getOrCreateCircuit\<close>, \<^verbatim>\<open>recordSuccess\<close>, \<^verbatim>\<open>recordFailure\<close>, the
  admission check of \<^verbatim>\<open>circuitBreaker\<close>) keeps all counters non-negative, so they are
  non-negative in every registry that a history reaches from the empty one.
\<close>

theorem recordSuccess_floor:
  "(state (circuitOf cs s) = CLOSED \<longrightarrow>
      failures (circuitOf (recordSuccess s cs) s) = max 0 (failures (circuitOf cs s) - 1)
      \<and> state (circuitOf (recordSuccess s cs) s) = CLOSED)
   \<and> (0 \<le> failures (circuitOf cs s) \<longrightarrow>
        0 \<le> failures (circuitOf ((recordSuccess s ^^ n) cs) s))
   \<and> (nonNegative cs \<longrightarrow>
        nonNegative (recordSuccess s cs)
        \<and> nonNegative (recordFailure cfg now s cs)
        \<and> nonNegative (fst (getOrCreateCircuit s cs))
        \<and> nonNegative (fst (circuitBreaker cfg now req res cs)))
   \<and> (reachable cfg st \<longrightarrow> nonNegative (fst st))"
  by (simp add: circuitOf_recordSuccess recordSuccess_iter_nonneg nonNegative_recordSuccess
        nonNegative_recordFailure nonNegative_getOrCreateCircuit nonNegative_circuitBreaker
        nonNegative_reachable)

theorem recordSuccess_floor_witness:
  "state (circuitOf (circuitWith 1 7 CLOSED) ''identities'') = CLOSED
   \<and> 0 \<le> failures (circuitOf (circuitWith 1 7 CLOSED) ''identities'')
   \<and> nonNegative (circuitWith 1 7 CLOSED)
   \<and> reachable defaultConfig (exec defaultConfig probeTrace)
   \<and> failures (circuitOf (recordSuccess ''identities'' (circuitWith 1 7 CLOSED)) ''identities'') = 0
   \<and> 0 \<le> failures (circuitOf ((recordSuccess ''identities'' ^^ 2) (circuitWith 1 7 CLOSED))
                ''identities'')
   \<and> nonNegative (recordSuccess ''identities'' (circuitWith 1 7 CLOSED))
   \<and> nonNegative (recordFailure defaultConfig 9 ''identities'' (circuitWith 1 7 CLOSED))
   \<and> nonNegative (fst (circuitBreaker defaultConfig 9 identitiesRequest newResponse
                          (circuitWith 1 7 CLOSED)))
   \<and> nonNegative (fst (exec defaultConfig probeTrace))"
  using recordSuccess_floor [of "circuitWith 1 7 CLOSED" "''identities''" 2 defaultConfig 9
          identitiesRequest newResponse "exec defaultConfig probeTrace"]
  by (simp add: circuitOf_circuitWith nonNegative_circuitWith reachable_exec)

subsection \<open>C9\<close>

text \<open>
  C9, as stated, has every request assigned an identifier, rejected at whatever stage.
  The rate limiter is registered before \<^verbatim>\<open>requestValidator\<close>: a request it rejects
  never reaches \<^verbatim>\<open>requestValidator\<close>, and its 429 response carries no
  \<^verbatim>\<open>X-Request-ID\<close> header even when the request brought one.
\<close>

theorem rate_limited_counterexample:
  "xRequestId tracedRequest = Some ''trace-1''
   \<and> servicePipeline defaultConfig (jwt_verify (tokensSignedWith ''k'')) 100 ''k3j2h1g0f'' ''p0o9i8u7y'' True
        Mandatory tracedRequest (circuitWith 3 7 CLOSED)
      = Some (circuitWith 3 7 CLOSED, Rejected rateLimitedResponse)
   \<and> headers rateLimitedResponse ''X-Request-ID'' = None"
  by (simp add: limited_run tracedRequest_def requestFor_def rateLimitedResponse_def)

text \<open>
  C9, amended. Every request that the rate limiter lets through, whether it is then
  rejected by the circuit breaker or the auth stage or forwarded, is assigned a request
  identifier: the inbound \<^verbatim>\<open>X-Request-ID\<close> value when the header is present and not
  empty, otherwise a fresh \<^verbatim>\<open>req_<millis>_<suffix>\<close>. That identifier is set on the
  response's \<^verbatim>\<open>X-Request-ID\<close> header and, when the request is forwarded, on the
  forwarded request's \<^verbatim>\<open>X-Request-ID\<close> header.
\<close>

theorem request_id_assigned:
  assumes "\<not> limited"
  shows "(\<exists>cs' out.
     servicePipeline cfg verify now suffix suffix' limited mode req cs = Some (cs', out)
     \<and> headers (outcomeResponse out) ''X-Request-ID'' = Some (assignedId now suffix req)
     \<and> (\<forall>h. forwardedHeaders out = Some h \<longrightarrow>
           h ''X-Request-ID'' = Some (assignedId now suffix req)))
    \<and> (\<forall>v. xRequestId req = Some v \<and> v \<noteq> [] \<longrightarrow> assignedId now suffix req = v)
    \<and> (xRequestId req = None \<or> xRequestId req = Some [] \<longrightarrow>
          assignedId now suffix req = ''req_'' @ showInt now @ ''_'' @ suffix)"
proof -
  have shape: "(\<forall>v. xRequestId req = Some v \<and> v \<noteq> [] \<longrightarrow> assignedId now suffix req = v)
    \<and> (xRequestId req = None \<or> xRequestId req = Some [] \<longrightarrow>
          assignedId now suffix req = ''req_'' @ showInt now @ ''_'' @ suffix)"
    by (auto simp: assignedId_def freshRequestId_def)
  have chain: "\<exists>cs' out.
     servicePipeline cfg verify now suffix suffix' limited mode req cs = Some (cs', out)
     \<and> headers (outcomeResponse out) ''X-Request-ID'' = Some (assignedId now suffix req)
     \<and> (\<forall>h. forwardedHeaders out = Some h \<longrightarrow>
           h ''X-Request-ID'' = Some (assignedId now suffix req))"
  proof -
  let ?rid = "assignedId now suffix req"
  let ?req1 = "req\<lparr> xRequestId := Some ?rid \<rparr>"
  let ?res1 = "newResponse\<lparr> headers := [''X-Request-ID'' \<mapsto> ?rid] \<rparr>"
  obtain cs1 fl where cb: "app_use ''/v1'' (circuitBreaker cfg now) ?req1 ?res1 cs = (cs1, fl)"
    by (cases "app_use ''/v1'' (circuitBreaker cfg now) ?req1 ?res1 cs")
  have fr: "headers (responseOf fl) = headers ?res1"
    and same: "\<And>req' res'. fl = Continue req' res' \<Longrightarrow> req' = ?req1"
    using app_use_frame [of "''/v1''" cfg now ?req1 ?res1 cs] cb by simp_all
  show ?thesis
  proof (cases fl)
    case (Finished r)
    then show ?thesis
      using assms cb fr by (simp add: servicePipeline_unlimited)
  next
    case (Continue req2 res2)
    have req2: "req2 = ?req1" using same Continue by simp
    have h2: "headers res2 = headers ?res1" using fr Continue by simp
    show ?thesis
    proof (cases rule: authMiddleware_cases [where mode = mode and cfg = cfg
                  and verify = verify and now = now and req = req2 and res = res2 and cs = cs1])
      case (forward req3)
      have "xRequestId req3 = Some ?rid" using forward(2) req2 by simp
      then have "onProxyReq now suffix' req3 ''X-Request-ID'' = Some ?rid"
        using onProxyReq_id [of req3 now suffix'] assignedId_truthy [of now suffix req] by simp
      then show ?thesis
        using assms cb Continue forward(1) h2 by (simp add: servicePipeline_unlimited)
    next
      case (reject code data)
      show ?thesis
        using assms cb Continue reject(1) h2 by (simp add: servicePipeline_unlimited)
    qed
  qed
  qed
  from chain shape show ?thesis by blast
qed

theorem request_id_assigned_witness:
  "\<not> False
   \<and> (\<exists>cs' out.
        servicePipeline defaultConfig (jwt_verify (tokensSignedWith ''k'')) 100 ''k3j2h1g0f'' ''p0o9i8u7y''
          False Mandatory tracedRequest (circuitWith 3 7 CLOSED) = Some (cs', out)
        \<and> headers (outcomeResponse out) ''X-Request-ID'' = Some ''trace-1''
        \<and> (\<forall>h. forwardedHeaders out = Some h \<longrightarrow> h ''X-Request-ID'' = Some ''trace-1''))
   \<and> (\<exists>cs' out.
        servicePipeline defaultConfig (jwt_verify (tokensSignedWith ''k'')) 100 ''k3j2h1g0f'' ''p0o9i8u7y''
          False Mandatory identitiesRequest (circuitWith 3 7 CLOSED) = Some (cs', out)
        \<and> headers (outcomeResponse out) ''X-Request-ID'' = Some ''req_100_k3j2h1g0f''
        \<and> (\<forall>h. forwardedHeaders out = Some h \<longrightarrow>
              h ''X-Request-ID'' = Some ''req_100_k3j2h1g0f''))"
proof -
  have nl: "\<not> False" by simp
  have t: "assignedId 100 ''k3j2h1g0f'' tracedRequest = ''trace-1''"
    by (simp add: assignedId_def tracedRequest_def requestFor_def)
  note traced = request_id_assigned [OF nl, where cfg = defaultConfig
      and verify = "jwt_verify (tokensSignedWith ''k'')" and now = 100 and suffix = "''k3j2h1g0f''"
      and suffix' = "''p0o9i8u7y''" and mode = Mandatory and req = tracedRequest
      and cs = "circuitWith 3 7 CLOSED"]
  note fresh = request_id_assigned [OF nl, where cfg = defaultConfig
      and verify = "jwt_verify (tokensSignedWith ''k'')" and now = 100 and suffix = "''k3j2h1g0f''"
      and suffix' = "''p0o9i8u7y''" and mode = Mandatory and req = identitiesRequest
      and cs = "circuitWith 3 7 CLOSED"]
  show ?thesis
    using traced fresh unfolding t assignedId_identitiesRequest by blast
qed

subsection \<open>C10\<close>

text \<open>
  C10. For every circuit in OPEN phase, recording an outcome never changes the phase.
  A success recorded for the service only decrements \<open>failures\<close> (floored at zero):
  the circuit is otherwise the same record. A failure recorded for the service
  increments \<open>failures\<close>, sets \<open>lastFailureTime\<close> and leaves the circuit OPEN. An outcome
  recorded for another service leaves the circuit as it is. The only exit from OPEN
  is an admission check for that service once the reset timeout has elapsed
  (\<open>resetTimeoutMs \<le> now - lastFailureTime\<close>), which moves the circuit to HALF_OPEN
  and changes nothing else: this is what the check does, and no step of a history
  leaves OPEN in any other way.
\<close>

theorem OPEN_only_exit:
  assumes "state (circuitOf cs s) = OPEN"
  shows "state (circuitOf (recordSuccess t cs) s) = OPEN
    \<and> failures (circuitOf (recordSuccess s cs) s) = max 0 (failures (circuitOf cs s) - 1)
    \<and> state (circuitOf (recordFailure cfg now t cs) s) = OPEN
    \<and> state (circuitOf (sendHook cfg now status t cs) s) = OPEN
    \<and> state (circuitOf (fst (circuitBreaker cfg now req res cs)) s) =
         (if getServiceFromPath (path req) = Some s
             \<and> resetTimeoutMs cfg \<le> now - lastFailureTime (circuitOf cs s)
          then HALF_OPEN else OPEN)
    \<and> (state (circuitOf (fst (step cfg (cs, pd) ev)) s) \<noteq> OPEN \<longrightarrow>
         (\<exists>p now'. ev = Admit p now' \<and> getServiceFromPath p = Some s
              \<and> resetTimeoutMs cfg \<le> now' - lastFailureTime (circuitOf cs s))
         \<and> state (circuitOf (fst (step cfg (cs, pd) ev)) s) = HALF_OPEN)
    \<and> circuitOf (recordSuccess s cs) s
          = (circuitOf cs s)\<lparr> failures := max 0 (failures (circuitOf cs s) - 1) \<rparr>
    \<and> circuitOf (recordFailure cfg now s cs) s
          = (circuitOf cs s)\<lparr> failures := failures (circuitOf cs s) + 1,
                                lastFailureTime := now \<rparr>
    \<and> (t \<noteq> s \<longrightarrow> circuitOf (recordSuccess t cs) s = circuitOf cs s
                  \<and> circuitOf (recordFailure cfg now t cs) s = circuitOf cs s)
    \<and> (sendHooks res = [] \<longrightarrow>
          circuitOf (fst (circuitBreaker cfg now req res cs)) s =
            (if getServiceFromPath (path req) = Some s
                \<and> resetTimeoutMs cfg \<le> now - lastFailureTime (circuitOf cs s)
             then (circuitOf cs s)\<lparr> state := HALF_OPEN \<rparr> else circuitOf cs s))"
proof -
  have a: "state (circuitOf (recordSuccess t cs) s) = OPEN"
    using assms circuitOf_sendHook_OPEN [of cs s cfg now 200 t] by (simp add: sendHook_def)
  have b: "failures (circuitOf (recordSuccess s cs) s) = max 0 (failures (circuitOf cs s) - 1)"
    using assms by (simp add: circuitOf_recordSuccess)
  have c: "state (circuitOf (recordFailure cfg now t cs) s) = OPEN"
    using assms circuitOf_sendHook_OPEN [of cs s cfg now 500 t] by (simp add: sendHook_def)
  have d: "state (circuitOf (sendHook cfg now status t cs) s) = OPEN"
    using assms by (rule circuitOf_sendHook_OPEN)
  note e = circuitBreaker_OPEN_state [OF assms, of cfg now req res]
  have f: "state (circuitOf (fst (step cfg (cs, pd) ev)) s) \<noteq> OPEN \<longrightarrow>
         (\<exists>p now'. ev = Admit p now' \<and> getServiceFromPath p = Some s
              \<and> resetTimeoutMs cfg \<le> now' - lastFailureTime (circuitOf cs s))
         \<and> state (circuitOf (fst (step cfg (cs, pd) ev)) s) = HALF_OPEN"
    using step_OPEN_exit [OF assms] by blast
  have g: "circuitOf (recordSuccess s cs) s
          = (circuitOf cs s)\<lparr> failures := max 0 (failures (circuitOf cs s) - 1) \<rparr>"
    using assms by (simp add: circuitOf_recordSuccess)
  have h: "circuitOf (recordFailure cfg now s cs) s
          = (circuitOf cs s)\<lparr> failures := failures (circuitOf cs s) + 1,
                                lastFailureTime := now \<rparr>"
    using assms by (simp add: circuitOf_recordFailure OPEN_again)
  have i: "t \<noteq> s \<longrightarrow> circuitOf (recordSuccess t cs) s = circuitOf cs s
                  \<and> circuitOf (recordFailure cfg now t cs) s = circuitOf cs s"
    by (simp add: circuitOf_recordSuccess circuitOf_recordFailure)
  have j: "sendHooks res = [] \<longrightarrow>
          circuitOf (fst (circuitBreaker cfg now req res cs)) s =
            (if getServiceFromPath (path req) = Some s
                \<and> resetTimeoutMs cfg \<le> now - lastFailureTime (circuitOf cs s)
             then (circuitOf cs s)\<lparr> state := HALF_OPEN \<rparr> else circuitOf cs s)"
  proof (cases "getServiceFromPath (path req)")
    case None
    then show ?thesis by (simp add: circuitBreaker_None)
  next
    case (Some u)
    show ?thesis
    proof (cases "u = s")
      case True
      then show ?thesis
        using assms Some by (simp add: circuitBreaker_Some [OF Some] circuitOf_upd)
    next
      case False
      then show ?thesis
        using Some by (simp add: circuitBreaker_Some [OF Some] circuitOf_upd)
    qed
  qed
  from a b c d e f g h i j show ?thesis by blast
qed

theorem OPEN_only_exit_witness:
  "state (circuitOf (circuitWith 5 0 OPEN) ''identities'') = OPEN
   \<and> sendHooks newResponse = []
   \<and> state (circuitOf (recordSuccess ''identities'' (circuitWith 5 0 OPEN)) ''identities'') = OPEN
   \<and> failures (circuitOf (recordSuccess ''identities'' (circuitWith 5 0 OPEN)) ''identities'') = 4
   \<and> state (circuitOf (recordFailure defaultConfig 60000 ''identities'' (circuitWith 5 0 OPEN))
               ''identities'') = OPEN
   \<and> state (circuitOf (fst (circuitBreaker defaultConfig 59999 identitiesRequest newResponse
               (circuitWith 5 0 OPEN))) ''identities'') = OPEN
   \<and> state (circuitOf (fst (circuitBreaker defaultConfig 60000 identitiesRequest newResponse
               (circuitWith 5 0 OPEN))) ''identities'') = HALF_OPEN
   \<and> circuitOf (recordSuccess ''identities'' (circuitWith 5 0 OPEN)) ''identities''
        = \<lparr> failures = 4, lastFailureTime = 0, state = OPEN \<rparr>
   \<and> circuitOf (recordFailure defaultConfig 60000 ''identities'' (circuitWith 5 0 OPEN))
        ''identities'' = \<lparr> failures = 6, lastFailureTime = 60000, state = OPEN \<rparr>
   \<and> circuitOf (fst (circuitBreaker defaultConfig 59999 identitiesRequest newResponse
               (circuitWith 5 0 OPEN))) ''identities''
        = \<lparr> failures = 5, lastFailureTime = 0, state = OPEN \<rparr>
   \<and> circuitOf (fst (circuitBreaker defaultConfig 60000 identitiesRequest newResponse
               (circuitWith 5 0 OPEN))) ''identities''
        = \<lparr> failures = 5, lastFailureTime = 0, state = HALF_OPEN \<rparr>"
proof -
  have h: "state (circuitOf (circuitWith 5 0 OPEN) ''identities'') = OPEN"
    by (simp add: circuitOf_circuitWith)
  have n: "sendHooks newResponse = []"
    by (simp add: newResponse_def)
  note early = OPEN_only_exit [OF h, where t = "''identities''" and cfg = defaultConfig
      and now = 59999 and status = 500 and req = identitiesRequest and res = newResponse
      and pd = "\<lambda>_. 0" and ev = "Send ''identities'' 200 3"]
  note late = OPEN_only_exit [OF h, where t = "''identities''" and cfg = defaultConfig
      and now = 60000 and status = 500 and req = identitiesRequest and res = newResponse
      and pd = "\<lambda>_. 0" and ev = "Send ''identities'' 200 3"]
  have e: "resetTimeoutMs defaultConfig = 60000"
    by (simp add: defaultConfig_def)
  show ?thesis
    using h n early late
    by (simp add: circuitOf_circuitWith service_identitiesRequest e)
qed

end
